theory Spec2Isabelle
  imports Main
begin

section \<open>Strings and the path functions of the host\<close>

text \<open>
  The program is a GitHub action written in JavaScript (\<^verbatim>\<open>src/index.js\<close>). Its strings
  are modelled as \<^typ>\<open>string\<close>: sequences of code units below 256. The functions of this
  section are the host's (\<^verbatim>\<open>String.prototype\<close> and the POSIX flavour of Node's
  \<^verbatim>\<open>path\<close> module); they are written after the algorithms of the Node.js
  implementation, on which the program runs.
\<close>

definition toLowerCase_char :: "char \<Rightarrow> char" where
  \<comment> \<open>\<^verbatim>\<open>toLowerCase\<close> on one code unit below 256: A-Z and the upper-case letters of Latin-1.\<close>
  "toLowerCase_char c =
     (let n = (of_char c :: nat)
      in if (65 \<le> n \<and> n \<le> 90) \<or> (192 \<le> n \<and> n \<le> 222 \<and> n \<noteq> 215)
         then char_of (n + 32) else c)"

definition toLowerCase :: "string \<Rightarrow> string" where
  "toLowerCase s = map toLowerCase_char s"

definition endsWith :: "string \<Rightarrow> string \<Rightarrow> bool" where
  "endsWith s suffix = (length suffix \<le> length s \<and> drop (length s - length suffix) s = suffix)"

fun split_on :: "char \<Rightarrow> string \<Rightarrow> string list" where
  "split_on sep [] = [[]]"
| "split_on sep (c # cs) =
     (if c = sep then [] # split_on sep cs
      else (case split_on sep cs of
              [] \<Rightarrow> [[c]]
            | seg # segs \<Rightarrow> (c # seg) # segs))"

fun join_with :: "string \<Rightarrow> string list \<Rightarrow> string" where
  "join_with sep [] = []"
| "join_with sep [s] = s"
| "join_with sep (s # t # ss) = s @ sep @ join_with sep (t # ss)"

definition strip_trailing_slashes :: "string \<Rightarrow> string" where
  "strip_trailing_slashes p = rev (dropWhile (\<lambda>c. c = CHR ''/'') (rev p))"

definition basename :: "string \<Rightarrow> string" where
  \<comment> \<open>\<^verbatim>\<open>path.basename(p)\<close>: trailing separators are skipped, then the last component is taken.\<close>
  "basename p = rev (takeWhile (\<lambda>c. c \<noteq> CHR ''/'') (rev (strip_trailing_slashes p)))"

definition dirname :: "string \<Rightarrow> string" where
  \<comment> \<open>\<^verbatim>\<open>path.dirname(p)\<close>: the scan runs from the end down to index 1; \<open>end\<close> is the
      index of the separator before the last component.\<close>
  "dirname p =
     (if p = [] then ''.''
      else
        let hasRoot = (hd p = CHR ''/'');
            r = dropWhile (\<lambda>c. c \<noteq> CHR ''/'') (dropWhile (\<lambda>c. c = CHR ''/'') (rev (tl p)));
            end = length r
        in if r = [] then (if hasRoot then ''/'' else ''.'')
           else if hasRoot \<and> end = 1 then ''//''
           else take end p)"

definition extname :: "string \<Rightarrow> string" where
  \<comment> \<open>\<^verbatim>\<open>path.extname(p)\<close>: from the last dot of the last component to its end; empty when
      there is no dot, when the last dot is the component's first character, and for \<open>..\<close>.\<close>
  "extname p =
     (let base = basename p;
          ext = rev (takeWhile (\<lambda>c. c \<noteq> CHR ''.'') (rev base));
          startDot = length base - length ext - 1
      in if CHR ''.'' \<notin> set base then []
         else if startDot = 0 then []
         else if hd base = CHR ''.'' \<and> ext = [] \<and> startDot = 1 then []
         else CHR ''.'' # ext)"

fun normalize_step :: "bool \<Rightarrow> string list \<Rightarrow> string \<Rightarrow> string list" where
  "normalize_step allowAboveRoot res seg =
     (if seg = [] \<or> seg = ''.'' then res
      else if seg = ''..'' then
        (if res \<noteq> [] \<and> last res \<noteq> ''..'' then butlast res
         else if allowAboveRoot then res @ [''..'']
         else res)
      else res @ [seg])"

definition normalizeString :: "string \<Rightarrow> bool \<Rightarrow> string" where
  "normalizeString p allowAboveRoot =
     join_with ''/'' (foldl (normalize_step allowAboveRoot) [] (split_on CHR ''/'' p))"

definition normalize :: "string \<Rightarrow> string" where
  \<comment> \<open>\<^verbatim>\<open>path.posix.normalize\<close>.\<close>
  "normalize p =
     (if p = [] then ''.''
      else
        let isAbsolute = (hd p = CHR ''/'');
            trailingSeparator = (last p = CHR ''/'');
            q = normalizeString p (\<not> isAbsolute)
        in if q = [] then (if isAbsolute then ''/'' else if trailingSeparator then ''./'' else ''.'')
           else (if isAbsolute then ''/'' else []) @ q @ (if trailingSeparator then ''/'' else []))"

definition path_join :: "string list \<Rightarrow> string" where
  \<comment> \<open>\<^verbatim>\<open>path.join(...args)\<close>: the non-empty arguments joined by a separator, then normalised.\<close>
  "path_join args =
     (let joined = join_with ''/'' (filter (\<lambda>a. a \<noteq> []) args)
      in if joined = [] then ''.'' else normalize joined)"

section \<open>Errors\<close>

text \<open>
  A thrown JavaScript error: its \<^verbatim>\<open>name\<close>, its \<^verbatim>\<open>message\<close> and, for an error of the
  HTTP client that carries a response, the response's status and the JSON text of its data
  (\<^verbatim>\<open>error.response\<close>).
\<close>

datatype error = Error (err_name: string) (err_message: string) (err_response: "(nat \<times> string) option")

definition new_Error :: "string \<Rightarrow> error" where
  "new_Error msg = Error ''Error'' msg None"

definition err_status :: "error \<Rightarrow> nat option" where
  \<comment> \<open>\<^verbatim>\<open>error.response?.status\<close>\<close>
  "err_status e = map_option fst (err_response e)"

section \<open>Source validation and target names\<close>

text \<open>
  \<^verbatim>\<open>fs.lstat\<close> is a parameter: \<open>lstat p\<close> is \<open>Inl e\<close> when the call rejects (no such
  entry) and \<open>Inr d\<close> when it resolves, \<open>d\<close> being \<^verbatim>\<open>stats.isDirectory()\<close>.
\<close>

type_synonym lstat = "string \<Rightarrow> error + bool"

definition validateSourceFile_try :: "lstat \<Rightarrow> string \<Rightarrow> error + unit" where
  \<comment> \<open>the body of the \<^verbatim>\<open>try\<close> block\<close>
  "validateSourceFile_try lstat source =
     (case lstat source of
        Inl e \<Rightarrow> Inl e
      | Inr isDirectory \<Rightarrow>
          if isDirectory then Inl (new_Error ''Source must be a file, not a directory'')
          else Inr ())"

definition validateSourceFile :: "lstat \<Rightarrow> string \<Rightarrow> error + unit" where
  \<comment> \<open>the \<^verbatim>\<open>catch\<close> clause replaces whatever was thrown\<close>
  "validateSourceFile lstat source =
     (case validateSourceFile_try lstat source of
        Inl error \<Rightarrow> Inl (new_Error (''Source file '' @ source @ '' does not exist.''))
      | Inr u \<Rightarrow> Inr u)"

definition isArchiveFile :: "string \<Rightarrow> bool" where
  "isArchiveFile fileName =
     (let ext = toLowerCase (extname fileName)
      in ext \<in> set [''.zip'', ''.tar'', ''.tar.gz'', ''.tgz'', ''.rar''])"

definition getTargetFile :: "string \<Rightarrow> string \<Rightarrow> string" where
  "getTargetFile targetPath source =
     (if endsWith targetPath ''/'' then path_join [targetPath, basename source] else targetPath)"

section \<open>The panel, the log and the state of a run\<close>

text \<open>
  The remote calls of the program, by endpoint. \<open>WriteFile serverId file buffer\<close> is the
  POST to \<^verbatim>\<open>/files/write\<close> with query parameter \<^verbatim>\<open>file\<close>; \<open>DecompressFile serverId root file\<close>
  and \<open>DeleteFiles serverId root files\<close> carry the bodies \<^verbatim>\<open>{root, file}\<close> and
  \<^verbatim>\<open>{root, files}\<close>; \<open>ListFiles serverId directory\<close> is the GET of \<^verbatim>\<open>/files/list\<close>.
\<close>

datatype request =
    WriteFile string string string
  | DecompressFile string string string
  | DeleteFiles string string "string list"
  | ListFiles string string

text \<open>
  An entry of a listing has its name and directory flag either under \<^verbatim>\<open>attributes\<close> or at
  top level; the array of entries comes under \<^verbatim>\<open>data.data\<close> or as \<^verbatim>\<open>data\<close> itself.
  \<open>EmptyText\<close> is a body that is the empty string, \<open>NoData\<close> any other body that holds no
  array of entries.
\<close>

datatype item = Nested string bool | Flat string bool

fun item_name :: "item \<Rightarrow> string" where
  "item_name (Nested n d) = n"
| "item_name (Flat n d) = n"

fun item_is_directory :: "item \<Rightarrow> bool" where
  "item_is_directory (Nested n d) = d"
| "item_is_directory (Flat n d) = d"

datatype payload = NoData | EmptyText | Envelope "item list" | Direct "item list"

datatype response = Resolved nat payload | Rejected error

text \<open>
  The panel is any deterministic function of the calls made so far and the call at hand: it
  may answer differently each time. A run threads the list of calls it made and the lines
  it logged.
\<close>

type_synonym backend = "request list \<Rightarrow> request \<Rightarrow> response"

datatype log_entry = Info string | LogError string | Debug string

record world =
  calls :: "request list"
  logs :: "log_entry list"

definition request :: "backend \<Rightarrow> request \<Rightarrow> world \<Rightarrow> response \<times> world" where
  \<comment> \<open>one awaited call of the HTTP client\<close>
  "request b r w = (b (calls w) r, w\<lparr>calls := calls w @ [r]\<rparr>)"

definition log :: "log_entry \<Rightarrow> world \<Rightarrow> world" where
  "log l w = w\<lparr>logs := logs w @ [l]\<rparr>"

function show_nat :: "nat \<Rightarrow> string" where
  "show_nat n = (if n < 10 then [char_of (48 + n)] else show_nat (n div 10) @ [char_of (48 + n mod 10)])"
  by pat_completeness auto
termination
  by (relation "measure id") auto

declare show_nat.simps [simp del]

definition show_error :: "error \<Rightarrow> string" where
  \<comment> \<open>\<^verbatim>\<open>Error.prototype.toString\<close>\<close>
  "show_error e =
     (if err_name e = [] then err_message e
      else if err_message e = [] then err_name e
      else err_name e @ '': '' @ err_message e)"

definition show_response_data :: "error \<Rightarrow> string" where
  \<comment> \<open>\<^verbatim>\<open>JSON.stringify(error?.response?.data)\<close> inside a template\<close>
  "show_response_data e = (case err_response e of None \<Rightarrow> ''undefined'' | Some (st, d) \<Rightarrow> d)"

section \<open>Upload, decompress, delete\<close>

text \<open>
  \<^verbatim>\<open>uploadFile\<close>: the loop \<^verbatim>\<open>while (!uploaded && retries < 3)\<close> with its two locals. The
  progress lines that the transport may emit during a transfer are not modelled.
\<close>

function upload_loop ::
  "backend \<Rightarrow> string \<Rightarrow> string \<Rightarrow> string \<Rightarrow> bool \<Rightarrow> nat \<Rightarrow> world \<Rightarrow> bool \<times> nat \<times> world" where
  "upload_loop b serverId targetFile buffer uploaded retries w =
     (if \<not> uploaded \<and> retries < 3 then
        (case request b (WriteFile serverId targetFile buffer) w of
           (Resolved st d, w') \<Rightarrow>
             if st = 204 then upload_loop b serverId targetFile buffer True (retries + 1) w'
             else upload_loop b serverId targetFile buffer uploaded (retries + 1)
                    (log (LogError (''Upload failed with status '' @ show_nat st @ '', retrying...'')) w')
         | (Rejected e, w') \<Rightarrow>
             upload_loop b serverId targetFile buffer uploaded (retries + 1)
               (log (Debug (''Error response: '' @ show_response_data e))
                 (log (LogError (''Upload failed with error '' @ show_error e @ '', retrying...'')) w')))
      else (uploaded, retries, w))"
  by pat_completeness auto
termination
  by (relation "measure (\<lambda>(b, serverId, targetFile, buffer, uploaded, retries, w). 3 - retries)") auto

declare upload_loop.simps [simp del]

definition uploadFile :: "backend \<Rightarrow> string \<Rightarrow> string \<Rightarrow> string \<Rightarrow> world \<Rightarrow> (error + unit) \<times> world" where
  \<comment> \<open>the function has no \<^verbatim>\<open>return\<close> statement and lets no error escape: it resolves to
      \<^verbatim>\<open>undefined\<close>, and the flag \<^verbatim>\<open>uploaded\<close> is dropped\<close>
  "uploadFile b serverId targetFile buffer w =
     (case upload_loop b serverId targetFile buffer False 0 w of
        (uploaded, retries, w') \<Rightarrow> (Inr (), w'))"

definition decompressFile :: "backend \<Rightarrow> string \<Rightarrow> string \<Rightarrow> world \<Rightarrow> (error + unit) \<times> world" where
  "decompressFile b serverId targetFile w =
     (let rootDir = dirname targetFile;
          fileName = basename targetFile;
          apiRoot = (if rootDir = ''.'' then ''/'' else rootDir)
      in case request b (DecompressFile serverId apiRoot fileName) w of
           (Resolved st d, w') \<Rightarrow> (Inr (), w')
         | (Rejected e, w') \<Rightarrow> (Inl e, w'))"

text \<open>
  \<^verbatim>\<open>deleteFile\<close>: the loop \<^verbatim>\<open>do { ... } while (retries < 3)\<close>. \<open>None\<close> is a run that never
  returns. \<^verbatim>\<open>continue\<close> and the end of the body both go to the test of the loop.
\<close>

partial_function (option) delete_loop ::
  "backend \<Rightarrow> string \<Rightarrow> string \<Rightarrow> nat \<Rightarrow> world \<Rightarrow> ((error + unit) \<times> world) option" where
  "delete_loop b serverId targetFile retries w =
     (case request b (DeleteFiles serverId ''/'' [targetFile]) w of
        (Resolved st d, w') \<Rightarrow>
          if st = 204 then Some (Inr (), log (Info (''Successfully deleted '' @ targetFile)) w')
          else if retries < 3 then delete_loop b serverId targetFile retries w'
          else Some (Inr (), w')
      | (Rejected e, w') \<Rightarrow>
          if err_status e = Some 403 \<and> retries < 2 then
            (let w'' = log (Info (''Delete failed with 403, retrying... (attempt '' @ show_nat (retries + 1) @ '')'')) w'
             in if retries + 1 < 3 then delete_loop b serverId targetFile (retries + 1) w''
                else Some (Inr (), w''))
          else Some (Inl e, w'))"

declare delete_loop.simps [code]

definition deleteFile :: "backend \<Rightarrow> string \<Rightarrow> string \<Rightarrow> world \<Rightarrow> ((error + unit) \<times> world) option" where
  "deleteFile b serverId targetFile w = delete_loop b serverId targetFile 0 w"

section \<open>The body of the upload loop of \<^verbatim>\<open>main\<close>\<close>

text \<open>
  What \<^verbatim>\<open>main\<close> does for one source path and one server, inside
  \<^verbatim>\<open>for (const source of fileSourcePaths)\<close>: validate, compute the target, read the file,
  upload, and for an archive decompress and delete. \<^verbatim>\<open>fs.readFile\<close> is a parameter. An
  error leaves the loop (and \<^verbatim>\<open>main\<close>, through its \<^verbatim>\<open>catch\<close>).
\<close>

type_synonym readFile = "string \<Rightarrow> error + string"

definition main_source_step ::
  "backend \<Rightarrow> lstat \<Rightarrow> readFile \<Rightarrow> bool \<Rightarrow> string \<Rightarrow> string \<Rightarrow> string \<Rightarrow> world
     \<Rightarrow> ((error + unit) \<times> world) option" where
  "main_source_step b lstat readFile decompressTarget serverId targetPath source w =
     (let w0 = log (Debug (''Processing source '' @ source)) w
      in case validateSourceFile lstat source of
           Inl e \<Rightarrow> Some (Inl e, w0)
         | Inr u \<Rightarrow>
             let targetFile = getTargetFile targetPath source
             in case readFile source of
                  Inl e \<Rightarrow> Some (Inl e, w0)
                | Inr buffer \<Rightarrow>
                    (case uploadFile b serverId targetFile buffer w0 of
                       (Inl e, w1) \<Rightarrow> Some (Inl e, w1)
                     | (Inr u1, w1) \<Rightarrow>
                         if decompressTarget \<and> isArchiveFile targetFile then
                           (case decompressFile b serverId targetFile w1 of
                              (Inl e, w2) \<Rightarrow> Some (Inl e, w2)
                            | (Inr u2, w2) \<Rightarrow> deleteFile b serverId targetFile w2)
                         else Some (Inr (), w1)))"

fun main_sources ::
  "backend \<Rightarrow> lstat \<Rightarrow> readFile \<Rightarrow> bool \<Rightarrow> string \<Rightarrow> string \<Rightarrow> string list \<Rightarrow> world
     \<Rightarrow> ((error + unit) \<times> world) option" where
  "main_sources b lstat readFile decompressTarget serverId targetPath [] w = Some (Inr (), w)"
| "main_sources b lstat readFile decompressTarget serverId targetPath (source # sources) w =
     (case main_source_step b lstat readFile decompressTarget serverId targetPath source w of
        None \<Rightarrow> None
      | Some (Inl e, w') \<Rightarrow> Some (Inl e, w')
      | Some (Inr u, w') \<Rightarrow> main_sources b lstat readFile decompressTarget serverId targetPath sources w')"

section \<open>Cleanup, first version of the file: recursive, with minimatch\<close>

text \<open>
  The source file holds two versions of the program. The first one (lines 1 to 409) cleans
  the target directory with \<^verbatim>\<open>matchAnyPattern\<close> and a recursive
  \<^verbatim>\<open>deleteAllFilesInDirectory\<close>. The library call
  \<^verbatim>\<open>minimatch(file, pattern, { matchBase: true })\<close> is a parameter of the model.
\<close>

type_synonym minimatch = "string \<Rightarrow> string \<Rightarrow> bool"

definition normalizePattern :: "string \<Rightarrow> string" where
  "normalizePattern p = (if endsWith p ''/'' then take (length p - 1) p else p)"

definition matchAnyPattern :: "minimatch \<Rightarrow> string \<Rightarrow> string \<Rightarrow> string list \<Rightarrow> bool" where
  "matchAnyPattern minimatch name relativePath patterns =
     list_ex (\<lambda>pattern.
        let normalized = normalizePattern pattern
        in minimatch name normalized \<or> minimatch relativePath normalized) patterns"

definition strip_leading_slash :: "string \<Rightarrow> string" where
  \<comment> \<open>\<^verbatim>\<open>targetPath.replace(/^\//, "")\<close>\<close>
  "strip_leading_slash p = (case p of [] \<Rightarrow> [] | c # cs \<Rightarrow> if c = CHR ''/'' then cs else p)"

definition relativePath :: "string \<Rightarrow> string \<Rightarrow> string" where
  "relativePath targetPath name = path_join [strip_leading_slash targetPath, name]"

definition shouldDelete :: "minimatch \<Rightarrow> string \<Rightarrow> string list \<Rightarrow> string \<Rightarrow> string \<Rightarrow> bool" where
  \<comment> \<open>the value given to \<^verbatim>\<open>shouldDelete\<close> for one entry\<close>
  "shouldDelete minimatch filesType filesList targetPath name =
     (if length filesList > 0 then
        (if toLowerCase filesType = ''whitelist''
         then \<not> matchAnyPattern minimatch name (relativePath targetPath name) filesList
         else matchAnyPattern minimatch name (relativePath targetPath name) filesList)
      else (if toLowerCase filesType = ''whitelist'' then True else False))"

definition items_of :: "payload \<Rightarrow> error + item list" where
  \<comment> \<open>first version: \<^verbatim>\<open>response.data.data || response.data\<close>, then \<^verbatim>\<open>for (const item of items)\<close>.
      The empty string is iterable and has no element; any other body without an array
      makes the loop throw a \<^verbatim>\<open>TypeError\<close> (the model keeps one message for them).\<close>
  "items_of d =
     (case d of
        Envelope items \<Rightarrow> Inr items
      | Direct items \<Rightarrow> Inr items
      | EmptyText \<Rightarrow> Inr []
      | NoData \<Rightarrow> Inl (Error ''TypeError'' ''items is not iterable'' None))"

definition files_of :: "payload \<Rightarrow> error + item list" where
  \<comment> \<open>second version: \<^verbatim>\<open>response.data.data || response.data\<close>, then \<^verbatim>\<open>files.filter(...)\<close>,
      which only an array has\<close>
  "files_of d =
     (case d of
        Envelope items \<Rightarrow> Inr items
      | Direct items \<Rightarrow> Inr items
      | EmptyText \<Rightarrow> Inl (Error ''TypeError'' ''files.filter is not a function'' None)
      | NoData \<Rightarrow> Inl (Error ''TypeError'' ''files.filter is not a function'' None))"

definition log_failure :: "error \<Rightarrow> world \<Rightarrow> world" where
  \<comment> \<open>the \<^verbatim>\<open>catch\<close> clause of both cleanup functions, before it rethrows\<close>
  "log_failure e w =
     (let w1 = log (LogError (''Failed to delete files in directory: '' @ err_message e)) w
      in case err_response e of
           None \<Rightarrow> w1
         | Some (st, d) \<Rightarrow> log (Debug (''API Error: '' @ d)) w1)"

text \<open>
  The recursion follows the directories that the panel lists, so nothing bounds its depth:
  the first argument is fuel, one unit per nested call, and \<open>None\<close> is a run that the fuel
  did not cover. \<open>delete_items\<close> is the \<^verbatim>\<open>for (const item of items)\<close> loop with the
  array \<^verbatim>\<open>namesToDelete\<close>.
\<close>

function deleteAllFilesInDirectory ::
  "nat \<Rightarrow> backend \<Rightarrow> minimatch \<Rightarrow> string \<Rightarrow> string \<Rightarrow> string \<Rightarrow> string list \<Rightarrow> world
     \<Rightarrow> ((error + unit) \<times> world) option"
and delete_items ::
  "nat \<Rightarrow> backend \<Rightarrow> minimatch \<Rightarrow> string \<Rightarrow> string \<Rightarrow> string \<Rightarrow> string list \<Rightarrow> item list
     \<Rightarrow> string list \<Rightarrow> world \<Rightarrow> ((error + string list) \<times> world) option" where
  "deleteAllFilesInDirectory 0 b minimatch serverId targetPath filesType filesList w = None"
| "deleteAllFilesInDirectory (Suc fuel) b minimatch serverId targetPath filesType filesList w =
     (let w0 = log (Info (''Deleting files in '' @ targetPath @ '' on server '' @ serverId
                            @ '' with '' @ filesType @ '' mode'')) w
      in case request b (ListFiles serverId targetPath) w0 of
           (Rejected e, w1) \<Rightarrow> Some (Inl e, log_failure e w1)
         | (Resolved st d, w1) \<Rightarrow>
             (case items_of d of
                Inl e \<Rightarrow> Some (Inl e, log_failure e w1)
              | Inr items \<Rightarrow>
                  (case delete_items fuel b minimatch serverId targetPath filesType filesList items [] w1 of
                     None \<Rightarrow> None
                   | Some (Inl e, w2) \<Rightarrow> Some (Inl e, log_failure e w2)
                   | Some (Inr namesToDelete, w2) \<Rightarrow>
                       if length namesToDelete > 0 then
                         (case request b (DeleteFiles serverId targetPath namesToDelete) w2 of
                            (Rejected e, w3) \<Rightarrow> Some (Inl e, log_failure e w3)
                          | (Resolved st' d', w3) \<Rightarrow>
                              Some (Inr (), log (Info (''Deleted '' @ show_nat (length namesToDelete)
                                                        @ '' items from '' @ targetPath)) w3))
                       else Some (Inr (), log (Info (''No files to delete after applying '' @ filesType
                                                     @ '' filter'')) w2))))"
| "delete_items fuel b minimatch serverId targetPath filesType filesList [] namesToDelete w =
     Some (Inr namesToDelete, w)"
| "delete_items fuel b minimatch serverId targetPath filesType filesList (item # items) namesToDelete w =
     (let isDir = item_is_directory item;
          name = item_name item
      in if shouldDelete minimatch filesType filesList targetPath name then
           (if isDir then
              (case deleteAllFilesInDirectory fuel b minimatch serverId (targetPath @ name @ ''/'')
                      filesType filesList w of
                 None \<Rightarrow> None
               | Some (Inl e, w') \<Rightarrow> Some (Inl e, w')
               | Some (Inr u, w') \<Rightarrow>
                   delete_items fuel b minimatch serverId targetPath filesType filesList items
                     (namesToDelete @ [name]) w')
            else delete_items fuel b minimatch serverId targetPath filesType filesList items
                   (namesToDelete @ [name]) w)
         else delete_items fuel b minimatch serverId targetPath filesType filesList items namesToDelete w)"
  by pat_completeness auto
termination
  by (relation "inv_image (less_than <*lex*> less_than) (\<lambda>x. case x of
          Inl (fuel, b, minimatch, serverId, targetPath, filesType, filesList, w) \<Rightarrow> (2 * fuel, 0)
        | Inr (fuel, b, minimatch, serverId, targetPath, filesType, filesList, items, namesToDelete, w) \<Rightarrow>
            (2 * fuel + 1, length items))") auto

section \<open>Cleanup, second version of the file: flat, with a regular expression\<close>

text \<open>
  The second version (from line 410 on) cleans with \<^verbatim>\<open>isFileMatch\<close>, \<^verbatim>\<open>filterFiles\<close> and
  \<^verbatim>\<open>deleteFilesInDirectory\<close>. \<^verbatim>\<open>isFileMatch\<close> turns a pattern into the source of a
  regular expression by three textual replacements and tests the name against it with
  flag \<^verbatim>\<open>i\<close>.

  The sources that these replacements produce from a pattern without any other character
  special in a regular expression are sequences of three atoms: an escaped dot, \<^verbatim>\<open>.\<close> and
  \<^verbatim>\<open>.*\<close>, and plain characters. The model reads exactly these; for any other source the
  host's engine decides (or throws a syntax error), and it is a parameter.
\<close>

definition replace_char :: "char \<Rightarrow> string \<Rightarrow> string \<Rightarrow> string" where
  \<comment> \<open>\<^verbatim>\<open>s.replace(/c/g, r)\<close> for one character \<open>c\<close>\<close>
  "replace_char c r s = concat (map (\<lambda>x. if x = c then r else [x]) s)"

definition regexPattern :: "string \<Rightarrow> string" where
  "regexPattern pattern =
     replace_char CHR ''?'' ''.''
       (replace_char CHR ''*'' ''.*''
         (replace_char CHR ''.'' [CHR 0x5C, CHR ''.''] pattern))"

datatype re_atom = Lit char | AnyChar | AnyStar

definition syntax_character :: "char \<Rightarrow> bool" where
  "syntax_character c = (c \<in> set (CHR 0x5C # ''^$.*+?()[]{}|''))"

fun parse_source :: "string \<Rightarrow> re_atom list option" where
  "parse_source [] = Some []"
| "parse_source [c] =
     (if c = CHR ''.'' then Some [AnyChar]
      else if syntax_character c then None
      else Some [Lit c])"
| "parse_source (c # d # cs) =
     (if c = CHR 0x5C \<and> d = CHR ''.'' then map_option ((#) (Lit CHR ''.'')) (parse_source cs)
      else if c = CHR ''.'' \<and> d = CHR ''*'' then map_option ((#) AnyStar) (parse_source cs)
      else if c = CHR ''.'' then map_option ((#) AnyChar) (parse_source (d # cs))
      else if syntax_character c then None
      else map_option ((#) (Lit c)) (parse_source (d # cs)))"

definition line_terminator :: "char \<Rightarrow> bool" where
  \<comment> \<open>the characters that \<^verbatim>\<open>.\<close> does not match, among the code units below 256\<close>
  "line_terminator c = (c = CHR 0x0A \<or> c = CHR 0x0D)"

definition same_letter :: "char \<Rightarrow> char \<Rightarrow> bool" where
  \<comment> \<open>equality of two characters under flag \<^verbatim>\<open>i\<close>\<close>
  "same_letter c d = (toLowerCase_char c = toLowerCase_char d)"

fun re_match :: "re_atom list \<Rightarrow> string \<Rightarrow> bool" where
  "re_match [] s = (s = [])"
| "re_match (Lit c # as) [] = False"
| "re_match (Lit c # as) (d # s) = (same_letter c d \<and> re_match as s)"
| "re_match (AnyChar # as) [] = False"
| "re_match (AnyChar # as) (d # s) = (\<not> line_terminator d \<and> re_match as s)"
| "re_match (AnyStar # as) [] = re_match as []"
| "re_match (AnyStar # as) (d # s) =
     (re_match as (d # s) \<or> (\<not> line_terminator d \<and> re_match (AnyStar # as) s))"

type_synonym regexp_host = "string \<Rightarrow> string \<Rightarrow> error + bool"

definition regexp_test :: "regexp_host \<Rightarrow> string \<Rightarrow> string \<Rightarrow> error + bool" where
  \<comment> \<open>\<^verbatim>\<open>new RegExp(`^${source}$`, 'i').test(s)\<close>\<close>
  "regexp_test host source s =
     (case parse_source source of
        Some atoms \<Rightarrow> Inr (re_match atoms s)
      | None \<Rightarrow> host source s)"

definition isFileMatch :: "regexp_host \<Rightarrow> string \<Rightarrow> string \<Rightarrow> error + bool" where
  "isFileMatch host fileName pattern =
     (if CHR ''*'' \<notin> set pattern \<and> CHR ''?'' \<notin> set pattern then Inr (fileName = pattern)
      else regexp_test host (regexPattern pattern) fileName)"

text \<open>\<^verbatim>\<open>Array.prototype.some\<close> and \<^verbatim>\<open>filter\<close> with a callback that may throw.\<close>

fun some_js :: "('a \<Rightarrow> error + bool) \<Rightarrow> 'a list \<Rightarrow> error + bool" where
  "some_js f [] = Inr False"
| "some_js f (x # xs) =
     (case f x of
        Inl e \<Rightarrow> Inl e
      | Inr t \<Rightarrow> if t then Inr True else some_js f xs)"

fun filter_js :: "('a \<Rightarrow> error + bool) \<Rightarrow> 'a list \<Rightarrow> error + 'a list" where
  "filter_js f [] = Inr []"
| "filter_js f (x # xs) =
     (case f x of
        Inl e \<Rightarrow> Inl e
      | Inr t \<Rightarrow>
         (case filter_js f xs of
            Inl e \<Rightarrow> Inl e
          | Inr ys \<Rightarrow> Inr (if t then x # ys else ys)))"

definition negate :: "error + bool \<Rightarrow> error + bool" where
  "negate r = (case r of Inl e \<Rightarrow> Inl e | Inr t \<Rightarrow> Inr (\<not> t))"

definition filterFiles :: "regexp_host \<Rightarrow> string list \<Rightarrow> string \<Rightarrow> string list \<Rightarrow> error + string list" where
  "filterFiles host files filesType filesList =
     (if length filesList = 0 then Inr (if filesType = ''blacklist'' then files else [])
      else if filesType = ''whitelist'' then
        filter_js (\<lambda>fileName. negate (some_js (\<lambda>pattern. isFileMatch host fileName pattern) filesList)) files
      else
        filter_js (\<lambda>fileName. some_js (\<lambda>pattern. isFileMatch host fileName pattern) filesList) files)"

definition hex_digit :: "nat \<Rightarrow> char" where
  "hex_digit d = (if d < 10 then char_of (48 + d) else char_of (87 + d))"

definition json_char :: "char \<Rightarrow> string" where
  "json_char c =
     (let n = (of_char c :: nat)
      in if c = CHR 0x22 then [CHR 0x5C, CHR 0x22]
         else if c = CHR 0x5C then [CHR 0x5C, CHR 0x5C]
         else if c = CHR 0x08 then [CHR 0x5C, CHR ''b'']
         else if c = CHR 0x0C then [CHR 0x5C, CHR ''f'']
         else if c = CHR 0x0A then [CHR 0x5C, CHR ''n'']
         else if c = CHR 0x0D then [CHR 0x5C, CHR ''r'']
         else if c = CHR 0x09 then [CHR 0x5C, CHR ''t'']
         else if n < 32 then [CHR 0x5C, CHR ''u'', CHR ''0'', CHR ''0'', hex_digit (n div 16), hex_digit (n mod 16)]
         else [c])"

definition json_strings :: "string list \<Rightarrow> string" where
  \<comment> \<open>\<^verbatim>\<open>JSON.stringify\<close> of an array of strings\<close>
  "json_strings xs =
     ''['' @ join_with '','' (map (\<lambda>x. [CHR 0x22] @ concat (map json_char x) @ [CHR 0x22]) xs) @ '']''"

definition deleteFilesInDirectory ::
  "backend \<Rightarrow> regexp_host \<Rightarrow> string \<Rightarrow> string \<Rightarrow> string \<Rightarrow> string list \<Rightarrow> world
     \<Rightarrow> (error + unit) \<times> world" where
  "deleteFilesInDirectory b host serverId targetPath filesType filesList w =
     (let w0 = log (Info (''Deleting files in '' @ targetPath @ '' on server '' @ serverId
                            @ '' (mode: '' @ filesType @ '')'')) w;
          w1 = (if length filesList > 0
                then log (Info (''File filter list: '' @ json_strings filesList)) w0 else w0)
      in case request b (ListFiles serverId targetPath) w1 of
           (Rejected e, w2) \<Rightarrow> (Inl e, log_failure e w2)
         | (Resolved st d, w2) \<Rightarrow>
             (case files_of d of
                Inl e \<Rightarrow> (Inl e, log_failure e w2)
              | Inr files \<Rightarrow>
                  let allFileNames = map item_name (filter (\<lambda>item. \<not> item_is_directory item) files)
                  in if length allFileNames = 0
                     then (Inr (), log (Info (''No files found in '' @ targetPath)) w2)
                     else
                       let w3 = log (Info (''Found '' @ show_nat (length allFileNames)
                                            @ '' files in directory: '' @ join_with '', '' allFileNames)) w2
                       in case filterFiles host allFileNames filesType filesList of
                            Inl e \<Rightarrow> (Inl e, log_failure e w3)
                          | Inr filesToDelete \<Rightarrow>
                              if length filesToDelete = 0
                              then (Inr (), log (Info (''No files to delete after applying '' @ filesType
                                                       @ '' filter'')) w3)
                              else
                                let w4 = log (Info (''Files to delete ('' @ filesType @ '' mode): ''
                                                     @ join_with '', '' filesToDelete)) w3
                                in case (if filesType = ''whitelist'' \<and> length filesList > 0
                                         then (case filter_js (\<lambda>fileName. some_js (\<lambda>pattern.
                                                        isFileMatch host fileName pattern) filesList) allFileNames of
                                                 Inl e \<Rightarrow> Inl e
                                               | Inr filesToKeep \<Rightarrow>
                                                   Inr (log (Info (''Files to keep (whitelist): ''
                                                          @ join_with '', '' filesToKeep)) w4))
                                         else Inr w4) of
                                     Inl e \<Rightarrow> (Inl e, log_failure e w4)
                                   | Inr w5 \<Rightarrow>
                                       (case request b (DeleteFiles serverId targetPath filesToDelete) w5 of
                                          (Rejected e, w6) \<Rightarrow> (Inl e, log_failure e w6)
                                        | (Resolved st' d', w6) \<Rightarrow>
                                            (Inr (), log (Info (''Successfully deleted ''
                                                @ show_nat (length filesToDelete) @ '' files from '' @ targetPath)) w6))))"

definition deleteAllFilesInDirectory_compat :: "backend \<Rightarrow> regexp_host \<Rightarrow> string \<Rightarrow> string \<Rightarrow> world
     \<Rightarrow> (error + unit) \<times> world" where
  \<comment> \<open>the second version keeps the old name \<^verbatim>\<open>deleteAllFilesInDirectory\<close> for this wrapper\<close>
  "deleteAllFilesInDirectory_compat b host serverId targetPath w =
     deleteFilesInDirectory b host serverId targetPath ''blacklist'' [] w"


section \<open>Notions used in the statements\<close>

definition answered_204 :: "response \<Rightarrow> bool" where
  \<comment> \<open>the call resolved, with status 204\<close>
  "answered_204 r = (case r of Resolved st d \<Rightarrow> st = 204 | Rejected e \<Rightarrow> False)"

fun is_error_line :: "log_entry \<Rightarrow> bool" where
  "is_error_line (LogError m) = True"
| "is_error_line (Info m) = False"
| "is_error_line (Debug m) = False"

definition error_lines :: "world \<Rightarrow> nat" where
  \<comment> \<open>how many lines went to \<^verbatim>\<open>core.error\<close>\<close>
  "error_lines w = length (filter is_error_line (logs w))"

definition fresh :: world where
  \<comment> \<open>the state at the start of a run\<close>
  "fresh = \<lparr>calls = [], logs = []\<rparr>"

text \<open>Scripted panels: one answer for ever, or a list of answers in turn and then one for ever.\<close>

definition always :: "response \<Rightarrow> backend" where
  "always r h q = r"

definition answers :: "response list \<Rightarrow> response \<Rightarrow> backend" where
  "answers rs r h q = (if length h < length rs then rs ! length h else r)"

definition http_error :: "nat \<Rightarrow> error" where
  \<comment> \<open>the error with which the HTTP client rejects a response of that status\<close>
  "http_error st = Error ''AxiosError'' (''Request failed with status code '' @ show_nat st) (Some (st, ''{}''))"

text \<open>A local file system in which every path is a plain file with the same content.\<close>

definition plain_file :: lstat where
  "plain_file p = Inr False"

definition reads :: "string \<Rightarrow> readFile" where
  "reads content p = Inr content"

text \<open>
  Stand-ins for the two library parameters, for concrete runs. \<open>literal\<close> compares the
  pattern with the last component of the file; it is used only with patterns made of
  letters, digits and dots, on which \<^verbatim>\<open>minimatch\<close> with \<^verbatim>\<open>matchBase\<close> does the same. It is
  not \<^verbatim>\<open>minimatch\<close> on other patterns (wildcards, separators, a leading \<^verbatim>\<open>#\<close> or \<^verbatim>\<open>!\<close>).
  \<open>no_regexp\<close> is a regular-expression host that rejects every source it is asked about.
\<close>

definition literal :: minimatch where
  "literal file pattern = (basename file = pattern)"

definition no_regexp :: regexp_host where
  "no_regexp source s = Inl (Error ''SyntaxError'' (''Invalid regular expression: /^'' @ source @ ''$/'') None)"

definition lists :: "item list \<Rightarrow> backend" where
  \<comment> \<open>a panel whose every directory holds these entries, and which accepts every other call\<close>
  "lists items h q = (case q of ListFiles s d \<Rightarrow> Resolved 200 (Envelope items) | _ \<Rightarrow> Resolved 204 NoData)"

definition calls_made :: "('r \<times> world) option \<Rightarrow> request list option" where
  \<comment> \<open>the calls of a run that returned\<close>
  "calls_made r = map_option (\<lambda>x. calls (snd x)) r"

definition returned_normally :: "((error + 'r) \<times> world) option \<Rightarrow> bool" where
  "returned_normally r = (case r of Some (Inr u, w) \<Rightarrow> True | _ \<Rightarrow> False)"


text \<open>
  The library \<^verbatim>\<open>minimatch\<close> is not part of the source; where a statement is about what the
  matcher itself answers, it is taken from the specification (section 4.1).
\<close>

fun glob_match :: "string \<Rightarrow> string \<Rightarrow> bool" where
  "glob_match [] s = (s = [])"
| "glob_match (p # ps) [] = (p = CHR ''*'' \<and> glob_match ps [])"
| "glob_match (p # ps) (c # cs) =
     (if p = CHR ''*'' then glob_match ps (c # cs) \<or> glob_match (p # ps) cs
      else if p = CHR ''?'' then glob_match ps cs
      else p = c \<and> glob_match ps cs)"

definition minimatch_spec :: minimatch where
  \<comment> \<open>Modelled from the spec: the library function \<^verbatim>\<open>minimatch\<close> (called with \<^verbatim>\<open>matchBase\<close>) is
      missing from the source. Section 4.1: \<^verbatim>\<open>*\<close> is zero or more of any character, \<^verbatim>\<open>?\<close>
      exactly one character, every other character is literal, matching is case-sensitive,
      and a pattern with no separator can match the last name component.\<close>
  "minimatch_spec file pattern =
     (glob_match pattern file \<or> (CHR ''/'' \<notin> set pattern \<and> glob_match pattern (basename file)))"


section \<open>Source validation\<close>

lemma validateSourceFile_cases:
  "validateSourceFile lstat source =
     (if lstat source = Inr False then Inr ()
      else Inl (new_Error (''Source file '' @ source @ '' does not exist.'')))"
  by (auto simp: validateSourceFile_def validateSourceFile_try_def split: sum.splits)

text \<open>
  Claim C10. Validation fails exactly when \<^verbatim>\<open>lstat\<close> rejects or the path is a directory, and
  every failure is the error with message \<^verbatim>\<open>Source file <path> does not exist.\<close>. For a
  directory the \<^verbatim>\<open>try\<close> block throws \<^verbatim>\<open>Source must be a file, not a directory\<close>, and the
  \<^verbatim>\<open>catch\<close> clause replaces it by that same message.
\<close>

theorem validateSourceFile_reports_missing:
  "(validateSourceFile lstat source \<noteq> Inr () \<longleftrightarrow> (\<exists>e. lstat source = Inl e) \<or> lstat source = Inr True) \<and>
   (validateSourceFile lstat source \<noteq> Inr () \<longrightarrow>
      validateSourceFile lstat source = Inl (new_Error (''Source file '' @ source @ '' does not exist.''))) \<and>
   (lstat source = Inr True \<longrightarrow>
      validateSourceFile_try lstat source = Inl (new_Error ''Source must be a file, not a directory'') \<and>
      validateSourceFile lstat source = Inl (new_Error (''Source file '' @ source @ '' does not exist.'')))"
  by (cases "lstat source") (auto simp: validateSourceFile_cases validateSourceFile_try_def)

theorem validateSourceFile_reports_missing_witness:
  "validateSourceFile (\<lambda>p. if p = ''build'' then Inr True else Inl (new_Error ''ENOENT'')) ''build''
     = Inl (new_Error ''Source file build does not exist.'') \<and>
   validateSourceFile_try (\<lambda>p. if p = ''build'' then Inr True else Inl (new_Error ''ENOENT'')) ''build''
     = Inl (new_Error ''Source must be a file, not a directory'') \<and>
   validateSourceFile (\<lambda>p. if p = ''build'' then Inr True else Inl (new_Error ''ENOENT'')) ''gone''
     = Inl (new_Error ''Source file gone does not exist.'')"
proof -
  let ?l = "\<lambda>p. if p = ''build'' then Inr True else Inl (new_Error ''ENOENT'')"
  have d: "?l ''build'' = Inr True" by simp
  have g: "?l ''gone'' = Inl (new_Error ''ENOENT'')" by simp
  from validateSourceFile_reports_missing [of ?l "''build''"] d
  have 1: "validateSourceFile_try ?l ''build'' = Inl (new_Error ''Source must be a file, not a directory'')"
    and 2: "validateSourceFile ?l ''build'' = Inl (new_Error (''Source file '' @ ''build'' @ '' does not exist.''))"
    by blast+
  from validateSourceFile_reports_missing [of ?l "''gone''"] g
  have 3: "validateSourceFile ?l ''gone'' = Inl (new_Error (''Source file '' @ ''gone'' @ '' does not exist.''))"
    by blast
  from 1 2 3 show ?thesis by simp
qed


section \<open>Archives\<close>

lemma of_char_plus_32: "(of_char c :: nat) \<le> 222 \<Longrightarrow> (of_char (char_of (of_char c + 32 :: nat)) :: nat) = of_char c + 32"
  by simp

lemma toLowerCase_char_dot: "toLowerCase_char c = CHR ''.'' \<longleftrightarrow> c = CHR ''.''"
proof
  assume a: "toLowerCase_char c = CHR ''.''"
  show "c = CHR ''.''"
  proof (rule ccontr)
    assume n: "c \<noteq> CHR ''.''"
    with a have cond: "(65 \<le> (of_char c :: nat) \<and> (of_char c :: nat) \<le> 90) \<or>
        (192 \<le> (of_char c :: nat) \<and> (of_char c :: nat) \<le> 222 \<and> (of_char c :: nat) \<noteq> 215)"
      by (auto simp: toLowerCase_char_def Let_def split: if_splits)
    with a have "char_of (of_char c + 32 :: nat) = CHR ''.''"
      by (auto simp: toLowerCase_char_def Let_def split: if_splits)
    then have "(of_char (char_of (of_char c + 32 :: nat)) :: nat) = of_char (CHR ''.'')" by simp
    then have "((of_char c :: nat) + 32) mod 256 = 46" by simp
    moreover from cond have "(of_char c :: nat) + 32 < 256" by linarith
    ultimately have "(of_char c :: nat) + 32 = 46" by simp
    with cond show False by linarith
  qed
next
  assume "c = CHR ''.''" then show "toLowerCase_char c = CHR ''.''"
    by (simp add: toLowerCase_char_def)
qed

lemma extname_shape: "extname p = [] \<or> (\<exists>r. extname p = CHR ''.'' # r \<and> CHR ''.'' \<notin> set r)"
proof -
  have "CHR ''.'' \<notin> set (rev (takeWhile (\<lambda>c. c \<noteq> CHR ''.'') (rev (basename p))))"
    by (auto dest: set_takeWhileD)
  then show ?thesis
    by (simp add: extname_def Let_def)
qed

lemma toLowerCase_no_dot: "CHR ''.'' \<notin> set r \<Longrightarrow> CHR ''.'' \<notin> set (toLowerCase r)"
proof
  assume a: "CHR ''.'' \<notin> set r" and "CHR ''.'' \<in> set (toLowerCase r)"
  then obtain c where "c \<in> set r" "toLowerCase_char c = CHR ''.''"
    by (auto simp: toLowerCase_def)
  with a show False by (simp add: toLowerCase_char_dot)
qed

lemma toLowerCase_extname_not_tar_gz: "toLowerCase (extname p) \<noteq> ''.tar.gz''"
proof
  assume a: "toLowerCase (extname p) = ''.tar.gz''"
  from extname_shape [of p] show False
  proof
    assume "extname p = []" with a show False by (simp add: toLowerCase_def)
  next
    assume "\<exists>r. extname p = CHR ''.'' # r \<and> CHR ''.'' \<notin> set r"
    then obtain r where r: "extname p = CHR ''.'' # r" "CHR ''.'' \<notin> set r" by blast
    from a r(1) have "toLowerCase r = ''tar.gz''" by (simp add: toLowerCase_def)
    with toLowerCase_no_dot [OF r(2)] show False by simp
  qed
qed

text \<open>
  Claim C7, where the code departs from it. \<^verbatim>\<open>path.extname\<close> starts at the last dot, so it
  never returns \<^verbatim>\<open>.tar.gz\<close>: the third entry of the list in \<^verbatim>\<open>isArchiveFile\<close> matches
  nothing. The extension of \<^verbatim>\<open>app.tar.gz\<close> is \<^verbatim>\<open>.gz\<close>, the file is not taken for an
  archive, and with decompression enabled \<^verbatim>\<open>main\<close> uploads it and makes no other call.
\<close>

theorem isArchiveFile_tar_gz_never:
  "(isArchiveFile fileName \<longleftrightarrow> toLowerCase (extname fileName) \<in> {''.zip'', ''.tar'', ''.tgz'', ''.rar''}) \<and>
   extname ''app.tar.gz'' = ''.gz'' \<and> isArchiveFile ''app.tar.gz'' = False \<and>
   calls_made (main_source_step (always (Resolved 204 NoData)) plain_file (reads ''x'') True ''srv''
                 ''/home/container/'' ''build/app.tar.gz'' fresh)
     = Some [WriteFile ''srv'' ''/home/container/app.tar.gz'' ''x'']"
proof -
  have 4: "calls_made (main_source_step (always (Resolved 204 NoData)) plain_file (reads ''x'') True ''srv''
                 ''/home/container/'' ''build/app.tar.gz'' fresh)
     = Some [WriteFile ''srv'' ''/home/container/app.tar.gz'' ''x'']"
    by code_simp
  have 1: "isArchiveFile fileName \<longleftrightarrow> toLowerCase (extname fileName) \<in> {''.zip'', ''.tar'', ''.tgz'', ''.rar''}"
    using toLowerCase_extname_not_tar_gz [of fileName]
    by (auto simp: isArchiveFile_def Let_def)
  have 2: "extname ''app.tar.gz'' = ''.gz''" by code_simp
  have 3: "isArchiveFile ''app.tar.gz'' = False" by code_simp
  from 1 2 3 4 show ?thesis by blast
qed


section \<open>Upload\<close>

lemma upload_loop_stop: "upload_loop b sid tf buf True r w = (True, r, w)"
  by (subst upload_loop.simps) simp

lemma upload_loop_exhausted: "\<not> r < 3 \<Longrightarrow> upload_loop b sid tf buf u r w = (u, r, w)"
  by (subst upload_loop.simps) simp

lemma upload_loop_step_ok:
  assumes "r < 3" "answered_204 (b (calls w) (WriteFile sid tf buf))"
  shows "upload_loop b sid tf buf False r w = (True, r + 1, w\<lparr>calls := calls w @ [WriteFile sid tf buf]\<rparr>)"
  using assms
  by (subst upload_loop.simps)
     (auto simp: request_def answered_204_def upload_loop_stop split: response.splits)

lemma error_lines_log [simp]:
  "error_lines (log l w) = error_lines w + (if is_error_line l then 1 else 0)"
  by (simp add: error_lines_def log_def)

lemma error_lines_calls_update [simp]: "error_lines (w\<lparr>calls := c\<rparr>) = error_lines w"
  by (simp add: error_lines_def)

lemma calls_log [simp]: "calls (log l w) = calls w"
  by (simp add: log_def)

lemma upload_loop_step_fail:
  assumes "r < 3" "\<not> answered_204 (b (calls w) (WriteFile sid tf buf))"
  shows "\<exists>w1. upload_loop b sid tf buf False r w = upload_loop b sid tf buf False (r + 1) w1 \<and>
           calls w1 = calls w @ [WriteFile sid tf buf] \<and> error_lines w1 = error_lines w + 1"
proof (cases "b (calls w) (WriteFile sid tf buf)")
  case (Resolved st d)
  with assms have "st \<noteq> 204" by (simp add: answered_204_def)
  with assms(1) Resolved show ?thesis
    apply (subst upload_loop.simps)
    apply (simp add: request_def)
    apply (rule exI, rule conjI, rule refl)
    apply simp
    done
next
  case (Rejected e)
  with assms(1) show ?thesis
    apply (subst upload_loop.simps)
    apply (simp add: request_def)
    apply (rule exI, rule conjI, rule refl)
    apply simp
    done
qed


lemma upload_loop_inv:
  "r \<le> 3 \<Longrightarrow>
   \<exists>k u w'. upload_loop b sid tf buf False r w = (u, r + k, w') \<and> r + k \<le> 3 \<and> (r < 3 \<longrightarrow> 0 < k) \<and>
      calls w' = calls w @ replicate k (WriteFile sid tf buf) \<and>
      (\<forall>j. Suc j < k \<longrightarrow> \<not> answered_204 (b (calls w @ replicate j (WriteFile sid tf buf)) (WriteFile sid tf buf))) \<and>
      (u \<longleftrightarrow> 0 < k \<and> answered_204 (b (calls w @ replicate (k - 1) (WriteFile sid tf buf)) (WriteFile sid tf buf))) \<and>
      (\<not> u \<longrightarrow> r + k = 3) \<and>
      error_lines w' = error_lines w + (if u then k - 1 else k)"
proof (induction "3 - r" arbitrary: r w)
  case 0
  then have "\<not> r < 3" by simp
  then have "upload_loop b sid tf buf False r w = (False, r + 0, w)"
    by (simp add: upload_loop_exhausted)
  moreover from 0 have "r = 3" by simp
  ultimately show ?case
    by (intro exI [of _ 0] exI [of _ False] exI [of _ w]) simp
next
  case (Suc m)
  let ?req = "WriteFile sid tf buf"
  from Suc.hyps(2) have r3: "r < 3" by simp
  show ?case
  proof (cases "answered_204 (b (calls w) ?req)")
    case True
    from upload_loop_step_ok [where r=r and b=b and w=w and sid=sid and tf=tf and buf=buf, OF r3 True]
    have "upload_loop b sid tf buf False r w = (True, r + 1, w\<lparr>calls := calls w @ [?req]\<rparr>)" .
    with r3 True show ?thesis
      by (intro exI [of _ 1] exI [of _ True] exI [of _ "w\<lparr>calls := calls w @ [?req]\<rparr>"])
         (simp add: error_lines_def)
  next
    case False
    from upload_loop_step_fail [where r=r and b=b and w=w and sid=sid and tf=tf and buf=buf, OF r3 False] obtain w1 where
      w1: "upload_loop b sid tf buf False r w = upload_loop b sid tf buf False (r + 1) w1"
        "calls w1 = calls w @ [?req]" "error_lines w1 = error_lines w + 1"
      by blast
    from Suc.hyps(2) Suc.prems have "m = 3 - (r + 1)" "r + 1 \<le> 3" by simp_all
    from Suc.hyps(1) [OF this] obtain k u w' where
      ih: "upload_loop b sid tf buf False (r + 1) w1 = (u, r + 1 + k, w')" "r + 1 + k \<le> 3"
        "calls w' = calls w1 @ replicate k ?req"
        "\<forall>j. Suc j < k \<longrightarrow> \<not> answered_204 (b (calls w1 @ replicate j ?req) ?req)"
        "u \<longleftrightarrow> 0 < k \<and> answered_204 (b (calls w1 @ replicate (k - 1) ?req) ?req)"
        "\<not> u \<longrightarrow> r + 1 + k = 3"
        "error_lines w' = error_lines w1 + (if u then k - 1 else k)"
      by blast
    have a: "upload_loop b sid tf buf False r w = (u, r + Suc k, w')"
      using w1(1) ih(1) by simp
    have c: "calls w' = calls w @ replicate (Suc k) ?req"
      using ih(3) w1(2) by simp
    have f: "\<forall>j. Suc j < Suc k \<longrightarrow> \<not> answered_204 (b (calls w @ replicate j ?req) ?req)"
    proof (intro allI impI)
      fix j assume j: "Suc j < Suc k"
      show "\<not> answered_204 (b (calls w @ replicate j ?req) ?req)"
      proof (cases j)
        case 0 with False show ?thesis by simp
      next
        case (Suc i)
        with j have "Suc i < k" by simp
        with ih(4) have "\<not> answered_204 (b (calls w1 @ replicate i ?req) ?req)" by blast
        with w1(2) Suc show ?thesis by simp
      qed
    qed
    have g: "u \<longleftrightarrow> 0 < Suc k \<and> answered_204 (b (calls w @ replicate (Suc k - 1) ?req) ?req)"
    proof (cases k)
      case 0
      with ih(5) have "\<not> u" by simp
      with 0 False show ?thesis by simp
    next
      case (Suc i)
      with ih(5) w1(2) show ?thesis by simp
    qed
    have e: "error_lines w' = error_lines w + (if u then Suc k - 1 else Suc k)"
      using ih(7) ih(5) w1(3) by (cases k) auto
    from a c f g e ih(2) ih(6) show ?thesis
      by (intro exI [of _ "Suc k"] exI [of _ u] exI [of _ w']) simp
  qed
qed

text \<open>
  Claim C2, as the code has it. \<^verbatim>\<open>uploadFile\<close> makes between one and three write calls and
  nothing else. It stops after the first attempt that the panel answers with status 204;
  every other answer, a resolved one with another status or a rejected one, is a failed
  attempt that adds one line to the error log and raises nothing; after three failed
  attempts the function returns. It returns nothing in either case: the flag
  \<^verbatim>\<open>uploaded\<close> stays inside the loop, so success and exhaustion differ only in the calls
  made and the lines logged.
\<close>

theorem uploadFile_three_attempts:
  "\<exists>n uploaded w'.
     upload_loop b serverId targetFile buffer False 0 w = (uploaded, n, w') \<and>
     uploadFile b serverId targetFile buffer w = (Inr (), w') \<and>
     1 \<le> n \<and> n \<le> 3 \<and>
     calls w' = calls w @ replicate n (WriteFile serverId targetFile buffer) \<and>
     (\<forall>j. Suc j < n \<longrightarrow>
        \<not> answered_204 (b (calls w @ replicate j (WriteFile serverId targetFile buffer))
                           (WriteFile serverId targetFile buffer))) \<and>
     (uploaded \<longleftrightarrow>
        answered_204 (b (calls w @ replicate (n - 1) (WriteFile serverId targetFile buffer))
                        (WriteFile serverId targetFile buffer))) \<and>
     (\<not> uploaded \<longrightarrow> n = 3) \<and>
     error_lines w' = error_lines w + (if uploaded then n - 1 else n)"
proof -
  have "0 \<le> (3::nat)" by simp
  from upload_loop_inv [where r=0 and b=b and sid=serverId and tf=targetFile and buf=buffer and w=w, OF this]
  show ?thesis
    apply (elim exE conjE)
    subgoal for k u w'
      apply (rule exI [of _ k], rule exI [of _ u], rule exI [of _ w'])
      apply (simp add: uploadFile_def)
      done
    done
qed

theorem uploadFile_three_attempts_witness:
  "\<exists>n uploaded w'.
     upload_loop (answers [Resolved 500 NoData, Rejected (http_error 502)] (Resolved 204 NoData))
        ''srv'' ''/f'' ''x'' False 0 fresh = (uploaded, n, w') \<and>
     uploadFile (answers [Resolved 500 NoData, Rejected (http_error 502)] (Resolved 204 NoData))
        ''srv'' ''/f'' ''x'' fresh = (Inr (), w') \<and>
     n = 3 \<and> uploaded \<and> calls w' = replicate 3 (WriteFile ''srv'' ''/f'' ''x'') \<and> error_lines w' = 2"
proof -
  let ?b = "answers [Resolved 500 NoData, Rejected (http_error 502)] (Resolved 204 NoData)"
  have e1: "fst (upload_loop ?b ''srv'' ''/f'' ''x'' False 0 fresh) = True"
    by code_simp
  have e2: "fst (snd (upload_loop ?b ''srv'' ''/f'' ''x'' False 0 fresh)) = 3"
    by code_simp
  have f: "calls fresh = []" "error_lines fresh = 0"
    by (simp_all add: fresh_def error_lines_def)
  show ?thesis
    apply (insert uploadFile_three_attempts [of ?b "''srv''" "''/f''" "''x''" fresh])
    apply (elim exE conjE)
    subgoal premises p for n u w'
    proof -
      from p(1) e1 have u: "u" by simp
      from p(1) e2 have n: "n = 3" by simp
      from p(5) f(1) n have c: "calls w' = replicate 3 (WriteFile ''srv'' ''/f'' ''x'')" by simp
      from p(9) f(2) u n have l: "error_lines w' = 2" by simp
      from p(1) p(2) u n c l show ?thesis by blast
    qed
    done
qed

text \<open>
  The claim speaks of a returned outcome. There is none: against a panel that always
  fails and against one that always succeeds the function returns the same value, while
  the flag of the loop differs.
\<close>

theorem uploadFile_outcome_counterexample:
  "fst (uploadFile (always (Resolved 500 NoData)) ''srv'' ''/f'' ''x'' fresh)
     = fst (uploadFile (always (Resolved 204 NoData)) ''srv'' ''/f'' ''x'' fresh) \<and>
   fst (upload_loop (always (Resolved 500 NoData)) ''srv'' ''/f'' ''x'' False 0 fresh) = False \<and>
   fst (upload_loop (always (Resolved 204 NoData)) ''srv'' ''/f'' ''x'' False 0 fresh) = True"
  by code_simp


section \<open>Deleting the uploaded archive\<close>

lemma delete_loop_204:
  assumes "answered_204 (b (calls w) (DeleteFiles sid ''/'' [tf]))"
  shows "delete_loop b sid tf r w =
           Some (Inr (), log (Info (''Successfully deleted '' @ tf)) (w\<lparr>calls := calls w @ [DeleteFiles sid ''/'' [tf]]\<rparr>))"
  using assms
  by (subst delete_loop.simps) (simp add: request_def answered_204_def split: response.splits)

lemma delete_loop_other:
  assumes "b (calls w) (DeleteFiles sid ''/'' [tf]) = Resolved st d" "st \<noteq> 204" "r < 3"
  shows "delete_loop b sid tf r w = delete_loop b sid tf r (w\<lparr>calls := calls w @ [DeleteFiles sid ''/'' [tf]]\<rparr>)"
  using assms
  by (subst delete_loop.simps) (simp add: request_def)

lemma delete_loop_403:
  assumes "b (calls w) (DeleteFiles sid ''/'' [tf]) = Rejected e" "err_status e = Some 403" "r < 2"
  shows "delete_loop b sid tf r w =
           delete_loop b sid tf (Suc r)
             (log (Info (''Delete failed with 403, retrying... (attempt '' @ show_nat (Suc r) @ '')''))
                (w\<lparr>calls := calls w @ [DeleteFiles sid ''/'' [tf]]\<rparr>))"
  using assms
  by (subst delete_loop.simps) (simp add: request_def Let_def)

lemma delete_loop_throw:
  assumes "b (calls w) (DeleteFiles sid ''/'' [tf]) = Rejected e" "err_status e \<noteq> Some 403 \<or> \<not> r < 2"
  shows "delete_loop b sid tf r w = Some (Inl e, w\<lparr>calls := calls w @ [DeleteFiles sid ''/'' [tf]]\<rparr>)"
  using assms
  by (subst delete_loop.simps) (auto simp: request_def)

lemma delete_loop_never_aux:
  assumes "delete_loop b sid tf r w = Some y"
  shows "(\<forall>h q. \<exists>st d. b h q = Resolved st d \<and> st \<noteq> 204) \<longrightarrow> r < 3 \<longrightarrow> False"
  apply (rule delete_loop.raw_induct [where P = "\<lambda>b sid tf r w y.
           (\<forall>h q. \<exists>st d. b h q = Resolved st d \<and> st \<noteq> 204) \<longrightarrow> r < 3 \<longrightarrow> False"
           and b = b and serverId = sid and targetFile = tf and retries = r and w = w and y = y])
  subgoal premises p for f b sid tf r w y
  proof (intro impI)
    assume c: "\<forall>h q. \<exists>st d. b h q = Resolved st d \<and> st \<noteq> 204" and r: "r < 3"
    from c obtain st d where s: "b (calls w) (DeleteFiles sid ''/'' [tf]) = Resolved st d" "st \<noteq> 204"
      by blast
    with p(2) r have "f b sid tf r (w\<lparr>calls := calls w @ [DeleteFiles sid ''/'' [tf]]\<rparr>) = Some y"
      by (simp add: request_def)
    from p(1) [OF this] c r show False by blast
  qed
  by (rule assms)

lemma delete_loop_never:
  assumes "\<And>h q. \<exists>st d. b h q = Resolved st d \<and> st \<noteq> 204" "r < 3"
  shows "delete_loop b sid tf r w = None"
proof (cases "delete_loop b sid tf r w")
  case None then show ?thesis .
next
  case (Some y)
  from delete_loop_never_aux [OF Some] assms show ?thesis by blast
qed

lemma delete_loop_403_twice:
  assumes 1: "b (calls w) (DeleteFiles sid ''/'' [tf]) = Rejected e1" "err_status e1 = Some 403"
      and 2: "b (calls w @ [DeleteFiles sid ''/'' [tf]]) (DeleteFiles sid ''/'' [tf]) = Rejected e2"
             "err_status e2 = Some 403"
  shows "\<exists>w2. delete_loop b sid tf 0 w = delete_loop b sid tf (Suc (Suc 0)) w2 \<and>
           calls w2 = calls w @ [DeleteFiles sid ''/'' [tf], DeleteFiles sid ''/'' [tf]]"
proof -
  let ?req = "DeleteFiles sid ''/'' [tf]"
  let ?w1 = "log (Info (''Delete failed with 403, retrying... (attempt '' @ show_nat (Suc 0) @ '')''))
                (w\<lparr>calls := calls w @ [?req]\<rparr>)"
  let ?w2 = "log (Info (''Delete failed with 403, retrying... (attempt '' @ show_nat (Suc (Suc 0)) @ '')''))
                (?w1\<lparr>calls := calls ?w1 @ [?req]\<rparr>)"
  have a: "delete_loop b sid tf 0 w = delete_loop b sid tf (Suc 0) ?w1"
    by (rule delete_loop_403 [where b=b and w=w and e=e1, OF 1]) simp
  have c1: "calls ?w1 = calls w @ [?req]" by simp
  from 2(1) c1 have "b (calls ?w1) ?req = Rejected e2" by simp
  then have "delete_loop b sid tf (Suc 0) ?w1 = delete_loop b sid tf (Suc (Suc 0)) ?w2"
    by (rule delete_loop_403 [where b=b and w="?w1" and e=e2, OF _ 2(2)]) simp
  with a have "delete_loop b sid tf 0 w = delete_loop b sid tf (Suc (Suc 0)) ?w2" by (rule trans)
  moreover have "calls ?w2 = calls w @ [?req, ?req]" by simp
  ultimately show ?thesis by blast
qed

text \<open>
  What holds of rejected attempts. Whatever the state of the loop, an attempt that is
  rejected with a status other than 403 (or without a response) ends \<^verbatim>\<open>deleteFile\<close> at
  once with that error. When the first two attempts are rejected with status 403, a third
  attempt is made: if it is answered with 204 the deletion has succeeded after three
  calls, and if it is rejected, with 403 or anything else, the error is raised after
  three calls.
\<close>

lemma delete_loop_rejections:
  "(\<forall>e. b (calls w) (DeleteFiles serverId ''/'' [targetFile]) = Rejected e \<and> err_status e \<noteq> Some 403 \<longrightarrow>
       delete_loop b serverId targetFile retries w =
         Some (Inl e, w\<lparr>calls := calls w @ [DeleteFiles serverId ''/'' [targetFile]]\<rparr>)) \<and>
   (\<forall>e1 e2.
       b (calls w) (DeleteFiles serverId ''/'' [targetFile]) = Rejected e1 \<and> err_status e1 = Some 403 \<and>
       b (calls w @ [DeleteFiles serverId ''/'' [targetFile]]) (DeleteFiles serverId ''/'' [targetFile]) = Rejected e2 \<and>
       err_status e2 = Some 403 \<longrightarrow>
       (answered_204 (b (calls w @ [DeleteFiles serverId ''/'' [targetFile], DeleteFiles serverId ''/'' [targetFile]])
                        (DeleteFiles serverId ''/'' [targetFile])) \<longrightarrow>
          (\<exists>w'. deleteFile b serverId targetFile w = Some (Inr (), w') \<and>
                calls w' = calls w @ replicate 3 (DeleteFiles serverId ''/'' [targetFile]))) \<and>
       (\<forall>e3. b (calls w @ [DeleteFiles serverId ''/'' [targetFile], DeleteFiles serverId ''/'' [targetFile]])
                 (DeleteFiles serverId ''/'' [targetFile]) = Rejected e3 \<longrightarrow>
          (\<exists>w'. deleteFile b serverId targetFile w = Some (Inl e3, w') \<and>
                calls w' = calls w @ replicate 3 (DeleteFiles serverId ''/'' [targetFile]))))"
proof (intro conjI allI impI)
  fix e
  assume "b (calls w) (DeleteFiles serverId ''/'' [targetFile]) = Rejected e \<and> err_status e \<noteq> Some 403"
  then show "delete_loop b serverId targetFile retries w =
         Some (Inl e, w\<lparr>calls := calls w @ [DeleteFiles serverId ''/'' [targetFile]]\<rparr>)"
    by (intro delete_loop_throw [where b=b and w=w and e=e]) simp_all
next
  let ?req = "DeleteFiles serverId ''/'' [targetFile]"
  fix e1 e2
  assume h: "b (calls w) ?req = Rejected e1 \<and> err_status e1 = Some 403 \<and>
       b (calls w @ [?req]) ?req = Rejected e2 \<and> err_status e2 = Some 403"
  then obtain w2 where w2: "delete_loop b serverId targetFile 0 w = delete_loop b serverId targetFile (Suc (Suc 0)) w2"
      "calls w2 = calls w @ [?req, ?req]"
    using delete_loop_403_twice [of b w serverId targetFile e1 e2] by blast
  assume "answered_204 (b (calls w @ [?req, ?req]) ?req)"
  with w2(2) have "answered_204 (b (calls w2) ?req)" by simp
  from delete_loop_204 [where b=b and w=w2 and r="Suc (Suc 0)", OF this] w2
  show "\<exists>w'. deleteFile b serverId targetFile w = Some (Inr (), w') \<and> calls w' = calls w @ replicate 3 ?req"
    by (simp add: deleteFile_def numeral_3_eq_3)
next
  let ?req = "DeleteFiles serverId ''/'' [targetFile]"
  fix e1 e2 e3
  assume h: "b (calls w) ?req = Rejected e1 \<and> err_status e1 = Some 403 \<and>
       b (calls w @ [?req]) ?req = Rejected e2 \<and> err_status e2 = Some 403"
  then obtain w2 where w2: "delete_loop b serverId targetFile 0 w = delete_loop b serverId targetFile (Suc (Suc 0)) w2"
      "calls w2 = calls w @ [?req, ?req]"
    using delete_loop_403_twice [of b w serverId targetFile e1 e2] by blast
  assume "b (calls w @ [?req, ?req]) ?req = Rejected e3"
  with w2(2) have "b (calls w2) ?req = Rejected e3" by simp
  from delete_loop_throw [where b=b and w=w2 and r="Suc (Suc 0)" and e=e3, OF this] w2
  show "\<exists>w'. deleteFile b serverId targetFile w = Some (Inl e3, w') \<and> calls w' = calls w @ replicate 3 ?req"
    by (simp add: deleteFile_def numeral_3_eq_3)
qed

lemma delete_loop_rejections_example:
  "(\<exists>w'. deleteFile (answers [Rejected (http_error 403), Rejected (http_error 403)] (Resolved 204 NoData))
            ''srv'' ''/f'' fresh = Some (Inr (), w') \<and>
         calls w' = replicate 3 (DeleteFiles ''srv'' ''/'' [''/f''])) \<and>
   delete_loop (always (Rejected (http_error 500))) ''srv'' ''/f'' 0 fresh =
     Some (Inl (http_error 500), fresh\<lparr>calls := calls fresh @ [DeleteFiles ''srv'' ''/'' [''/f'']]\<rparr>)"
proof -
  let ?b = "answers [Rejected (http_error 403), Rejected (http_error 403)] (Resolved 204 NoData)"
  let ?req = "DeleteFiles ''srv'' ''/'' [''/f'']"
  have s: "err_status (http_error 403) = Some 403" "err_status (http_error 500) \<noteq> Some 403"
    by (simp_all add: err_status_def http_error_def)
  have c: "calls fresh = []" by (simp add: fresh_def)
  have r1: "?b (calls fresh) ?req = Rejected (http_error 403)"
    and r2: "?b (calls fresh @ [?req]) ?req = Rejected (http_error 403)"
    and r3: "answered_204 (?b (calls fresh @ [?req, ?req]) ?req)"
    by (simp_all add: c answers_def answered_204_def)
  note t = delete_loop_rejections [of ?b fresh "''srv''" "''/f''" 0]
  from t have "\<forall>e1 e2. ?b (calls fresh) ?req = Rejected e1 \<and> err_status e1 = Some 403 \<and>
       ?b (calls fresh @ [?req]) ?req = Rejected e2 \<and> err_status e2 = Some 403 \<longrightarrow>
       (answered_204 (?b (calls fresh @ [?req, ?req]) ?req) \<longrightarrow>
          (\<exists>w'. deleteFile ?b ''srv'' ''/f'' fresh = Some (Inr (), w') \<and>
                calls w' = calls fresh @ replicate 3 ?req))"
    by blast
  with r1 r2 r3 s(1) have "\<exists>w'. deleteFile ?b ''srv'' ''/f'' fresh = Some (Inr (), w') \<and>
                calls w' = calls fresh @ replicate 3 ?req"
    by blast
  then have A: "\<exists>w'. deleteFile ?b ''srv'' ''/f'' fresh = Some (Inr (), w') \<and> calls w' = replicate 3 ?req"
    by (simp add: c)
  have "always (Rejected (http_error 500)) (calls fresh) ?req = Rejected (http_error 500)"
    by (simp add: always_def)
  with delete_loop_rejections [of "always (Rejected (http_error 500))" fresh "''srv''" "''/f''" 0] s(2)
  have B: "delete_loop (always (Rejected (http_error 500))) ''srv'' ''/f'' 0 fresh =
     Some (Inl (http_error 500), fresh\<lparr>calls := calls fresh @ [?req]\<rparr>)"
    by blast
  from A B show ?thesis by (rule conjI)
qed

text \<open>
  Claim C3, where the code departs from it. The bound of three attempts in all does not
  hold: the counter \<^verbatim>\<open>retries\<close> grows only when a rejection with status 403 is retried, so
  an attempt that resolves with a status other than 204 is repeated without being
  counted. A panel that answers 200 once and then rejects with 403 gets four calls before
  the error is raised; one that answers 403, 200, 403, 200, 200 and then 204 gets six
  calls before the deletion succeeds.
\<close>

theorem deleteFile_more_than_three_attempts:
  "calls_made (deleteFile (answers [Resolved 200 NoData] (Rejected (http_error 403))) ''srv'' ''/f'' fresh)
     = Some (replicate 4 (DeleteFiles ''srv'' ''/'' [''/f''])) \<and>
   map_option fst (deleteFile (answers [Resolved 200 NoData] (Rejected (http_error 403))) ''srv'' ''/f'' fresh)
     = Some (Inl (http_error 403)) \<and>
   calls_made (deleteFile (answers [Rejected (http_error 403), Resolved 200 NoData, Rejected (http_error 403),
                                    Resolved 200 NoData, Resolved 200 NoData] (Resolved 204 NoData))
                 ''srv'' ''/f'' fresh)
     = Some (replicate 6 (DeleteFiles ''srv'' ''/'' [''/f''])) \<and>
   returned_normally (deleteFile (answers [Rejected (http_error 403), Resolved 200 NoData, Rejected (http_error 403),
                                           Resolved 200 NoData, Resolved 200 NoData] (Resolved 204 NoData))
                        ''srv'' ''/f'' fresh)"
proof (intro conjI)
  show "calls_made (deleteFile (answers [Resolved 200 NoData] (Rejected (http_error 403))) ''srv'' ''/f'' fresh)
     = Some (replicate 4 (DeleteFiles ''srv'' ''/'' [''/f'']))"
    by code_simp
  show "map_option fst (deleteFile (answers [Resolved 200 NoData] (Rejected (http_error 403))) ''srv'' ''/f'' fresh)
     = Some (Inl (http_error 403))"
    by code_simp
  show "calls_made (deleteFile (answers [Rejected (http_error 403), Resolved 200 NoData, Rejected (http_error 403),
                                    Resolved 200 NoData, Resolved 200 NoData] (Resolved 204 NoData))
                 ''srv'' ''/f'' fresh)
     = Some (replicate 6 (DeleteFiles ''srv'' ''/'' [''/f'']))"
    by code_simp
  show "returned_normally (deleteFile (answers [Rejected (http_error 403), Resolved 200 NoData, Rejected (http_error 403),
                                           Resolved 200 NoData, Resolved 200 NoData] (Resolved 204 NoData))
                        ''srv'' ''/f'' fresh)"
    by code_simp
qed

text \<open>
  Claim C4, where the code departs from it. The counter \<^verbatim>\<open>retries\<close> grows only when a
  403 is retried, and never beyond 2: the test \<^verbatim>\<open>retries < 3\<close> of the loop is always true.
  An answer that resolves with a status other than 204 leaves the counter as it is, so a
  panel that keeps answering 200 keeps \<^verbatim>\<open>deleteFile\<close> calling for ever; one that answers
  200 five times and then 204 gets six calls.
\<close>

theorem deleteFile_unbounded_attempts:
  "deleteFile (always (Resolved 200 NoData)) serverId targetFile w = None \<and>
   map_option (\<lambda>r. (fst r, length (calls (snd r))))
     (deleteFile (answers (replicate 5 (Resolved 200 NoData)) (Resolved 204 NoData)) ''srv'' ''/f'' fresh)
     = Some (Inr (), 6)"
proof
  have "\<And>h q. \<exists>st d. always (Resolved 200 NoData) h q = Resolved st d \<and> st \<noteq> 204"
    by (simp add: always_def)
  then show "deleteFile (always (Resolved 200 NoData)) serverId targetFile w = None"
    unfolding deleteFile_def by (rule delete_loop_never) simp
next
  show "map_option (\<lambda>r. (fst r, length (calls (snd r))))
     (deleteFile (answers (replicate 5 (Resolved 200 NoData)) (Resolved 204 NoData)) ''srv'' ''/f'' fresh)
     = Some (Inr (), 6)"
    by code_simp
qed


section \<open>One archive, end to end\<close>

lemma uploadFile_first_204:
  assumes "answered_204 (b (calls w) (WriteFile sid tf buf))"
  shows "uploadFile b sid tf buf w = (Inr (), w\<lparr>calls := calls w @ [WriteFile sid tf buf]\<rparr>)"
proof -
  have "(0::nat) < 3" by simp
  from upload_loop_step_ok [where b=b and w=w and sid=sid and tf=tf and buf=buf and r=0, OF this assms]
  show ?thesis by (simp add: uploadFile_def)
qed

lemma decompressFile_resolved:
  assumes "b (calls w) (DecompressFile sid (if dirname tf = ''.'' then ''/'' else dirname tf) (basename tf)) = Resolved st d"
  shows "decompressFile b sid tf w =
           (Inr (), w\<lparr>calls := calls w @ [DecompressFile sid (if dirname tf = ''.'' then ''/'' else dirname tf) (basename tf)]\<rparr>)"
  using assms by (simp add: decompressFile_def Let_def request_def)

lemma app_zip_paths:
  "getTargetFile ''/home/container/'' ''build/app.zip'' = ''/home/container/app.zip''"
  "isArchiveFile ''/home/container/app.zip''"
  "dirname ''/home/container/app.zip'' = ''/home/container''"
  "basename ''/home/container/app.zip'' = ''app.zip''"
  by code_simp+

text \<open>
  Claim C1. The file \<^verbatim>\<open>build/app.zip\<close> exists, is not a directory and can be read; the
  target is \<^verbatim>\<open>/home/container/\<close> and decompression is enabled. When the panel accepts each
  call (204 for the write, any resolved answer for the decompression, 204 for the delete),
  the step of \<^verbatim>\<open>main\<close> for this source returns normally and has made exactly three calls,
  in this order: the write with \<^verbatim>\<open>file=/home/container/app.zip\<close>, the decompression with
  root \<^verbatim>\<open>/home/container\<close> and file \<^verbatim>\<open>app.zip\<close>, and the deletion with root \<^verbatim>\<open>/\<close> and files
  \<^verbatim>\<open>[/home/container/app.zip]\<close>.
\<close>

theorem archive_upload_call_sequence:
  assumes src: "lstat ''build/app.zip'' = Inr False" "readFile ''build/app.zip'' = Inr buffer"
    and wr: "answered_204 (b (calls w) (WriteFile serverId ''/home/container/app.zip'' buffer))"
    and de: "b (calls w @ [WriteFile serverId ''/home/container/app.zip'' buffer])
               (DecompressFile serverId ''/home/container'' ''app.zip'') = Resolved st d"
    and dl: "answered_204 (b (calls w @ [WriteFile serverId ''/home/container/app.zip'' buffer,
                                         DecompressFile serverId ''/home/container'' ''app.zip''])
                             (DeleteFiles serverId ''/'' [''/home/container/app.zip'']))"
  shows "\<exists>w'. main_source_step b lstat readFile True serverId ''/home/container/'' ''build/app.zip'' w
                 = Some (Inr (), w') \<and>
              calls w' = calls w @ [WriteFile serverId ''/home/container/app.zip'' buffer,
                                    DecompressFile serverId ''/home/container'' ''app.zip'',
                                    DeleteFiles serverId ''/'' [''/home/container/app.zip'']]"
proof -
  let ?tf = "''/home/container/app.zip''"
  let ?W = "WriteFile serverId ?tf buffer"
  let ?D = "DecompressFile serverId ''/home/container'' ''app.zip''"
  let ?X = "DeleteFiles serverId ''/'' [?tf]"
  let ?w0 = "log (Debug (''Processing source '' @ ''build/app.zip'')) w"
  let ?w1 = "?w0\<lparr>calls := calls ?w0 @ [?W]\<rparr>"
  let ?w2 = "?w1\<lparr>calls := calls ?w1 @ [?D]\<rparr>"
  let ?w3 = "log (Info (''Successfully deleted '' @ ?tf)) (?w2\<lparr>calls := calls ?w2 @ [?X]\<rparr>)"
  have v: "validateSourceFile lstat ''build/app.zip'' = Inr ()"
    using src(1) by (simp add: validateSourceFile_cases)
  from wr have "answered_204 (b (calls ?w0) ?W)" by simp
  then have u: "uploadFile b serverId ?tf buffer ?w0 = (Inr (), ?w1)"
    by (rule uploadFile_first_204)
  have c1: "calls ?w1 = calls w @ [?W]" by simp
  from de c1 have "b (calls ?w1) (DecompressFile serverId (if dirname ?tf = ''.'' then ''/'' else dirname ?tf) (basename ?tf))
                     = Resolved st d"
    by (simp add: app_zip_paths)
  from decompressFile_resolved [where b=b and w="?w1" and tf="?tf" and sid=serverId, OF this]
  have dz: "decompressFile b serverId ?tf ?w1 = (Inr (), ?w2)"
    by (simp add: app_zip_paths)
  have c2: "calls ?w2 = calls w @ [?W, ?D]" by simp
  from dl c2 have "answered_204 (b (calls ?w2) ?X)" by simp
  from delete_loop_204 [where b=b and w="?w2" and sid=serverId and tf="?tf" and r=0, OF this]
  have x: "deleteFile b serverId ?tf ?w2 = Some (Inr (), ?w3)"
    by (simp add: deleteFile_def)
  have m: "main_source_step b lstat readFile True serverId ''/home/container/'' ''build/app.zip'' w = Some (Inr (), ?w3)"
    unfolding main_source_step_def Let_def
    by (simp only: v src(2) app_zip_paths u dz x sum.case prod.case if_True simp_thms)
  have c3: "calls ?w3 = calls w @ [?W, ?D, ?X]" by simp
  from m c3 show ?thesis by blast
qed

theorem archive_upload_call_sequence_witness:
  "\<exists>w'. main_source_step (always (Resolved 204 NoData)) plain_file (reads ''PK'') True ''srv''
            ''/home/container/'' ''build/app.zip'' fresh = Some (Inr (), w') \<and>
         calls w' = [WriteFile ''srv'' ''/home/container/app.zip'' ''PK'',
                     DecompressFile ''srv'' ''/home/container'' ''app.zip'',
                     DeleteFiles ''srv'' ''/'' [''/home/container/app.zip'']]"
proof -
  let ?b = "always (Resolved 204 NoData)"
  have 1: "plain_file ''build/app.zip'' = Inr False" by (simp add: plain_file_def)
  have 2: "reads ''PK'' ''build/app.zip'' = Inr ''PK''" by (simp add: reads_def)
  have 3: "answered_204 (?b (calls fresh) (WriteFile ''srv'' ''/home/container/app.zip'' ''PK''))"
    by (simp add: always_def answered_204_def)
  have 4: "?b (calls fresh @ [WriteFile ''srv'' ''/home/container/app.zip'' ''PK''])
               (DecompressFile ''srv'' ''/home/container'' ''app.zip'') = Resolved 204 NoData"
    by (simp add: always_def)
  have 5: "answered_204 (?b (calls fresh @ [WriteFile ''srv'' ''/home/container/app.zip'' ''PK'',
                                         DecompressFile ''srv'' ''/home/container'' ''app.zip''])
                             (DeleteFiles ''srv'' ''/'' [''/home/container/app.zip'']))"
    by (simp add: always_def answered_204_def)
  have c: "calls fresh = []" by (simp add: fresh_def)
  from archive_upload_call_sequence [where b="?b" and w=fresh and lstat=plain_file
      and readFile="reads ''PK''" and buffer="''PK''" and serverId="''srv''" and st=204 and d=NoData, OF 1 2 3 4 5]
  show ?thesis unfolding c append_Nil .
qed


section \<open>The decision functions of the cleanup\<close>

lemma some_js_Inr: "some_js g xs = Inr t \<Longrightarrow> t = (\<exists>x\<in>set xs. g x = Inr True)"
proof (induction xs)
  case Nil then show ?case by simp
next
  case (Cons x xs)
  show ?case
  proof (cases "g x")
    case (Inl e) with Cons.prems show ?thesis by simp
  next
    case (Inr u)
    show ?thesis
    proof (cases u)
      case True with Inr Cons.prems show ?thesis by auto
    next
      case False
      with Inr Cons.prems have "some_js g xs = Inr t" by simp
      from Cons.IH [OF this] Inr False show ?thesis by simp
    qed
  qed
qed

lemma filter_js_Inr: "filter_js g xs = Inr ys \<Longrightarrow> ys = filter (\<lambda>x. g x = Inr True) xs"
proof (induction xs arbitrary: ys)
  case Nil then show ?case by simp
next
  case (Cons x xs)
  from Cons.prems obtain t zs where t: "g x = Inr t" "filter_js g xs = Inr zs" "ys = (if t then x # zs else zs)"
    by (auto split: sum.splits)
  from Cons.IH [OF t(2)] t(1,3) show ?case by auto
qed

lemma filter_js_total: "filter_js g xs = Inr ys \<Longrightarrow> x \<in> set xs \<Longrightarrow> \<exists>t. g x = Inr t"
proof (induction xs arbitrary: ys)
  case Nil then show ?case by simp
next
  case (Cons a xs)
  from Cons.prems(1) obtain t zs where t: "g a = Inr t" "filter_js g xs = Inr zs"
    by (auto split: sum.splits)
  show ?case
  proof (cases "x = a")
    case True with t(1) show ?thesis by simp
  next
    case False
    with Cons.prems(2) have "x \<in> set xs" by simp
    from Cons.IH [OF t(2) this] show ?thesis .
  qed
qed

lemma some_js_decides:
  assumes "some_js (\<lambda>pattern. isFileMatch host fileName pattern) filesList = Inr t"
  shows "t = (\<exists>pattern\<in>set filesList. isFileMatch host fileName pattern = Inr True)"
  using assms by (rule some_js_Inr)

lemma filterFiles_decision:
  assumes "filesList \<noteq> []" "filterFiles host files filesType filesList = Inr batch"
  shows "batch = filter (\<lambda>fileName.
           if filesType = ''whitelist''
           then \<not> (\<exists>pattern\<in>set filesList. isFileMatch host fileName pattern = Inr True)
           else (\<exists>pattern\<in>set filesList. isFileMatch host fileName pattern = Inr True)) files"
proof (cases "filesType = ''whitelist''")
  case True
  let ?g = "\<lambda>fileName. negate (some_js (\<lambda>pattern. isFileMatch host fileName pattern) filesList)"
  from True assms have f: "filter_js ?g files = Inr batch"
    by (simp add: filterFiles_def)
  have "(?g x = Inr True) = (\<not> (\<exists>pattern\<in>set filesList. isFileMatch host x pattern = Inr True))"
    if "x \<in> set files" for x
  proof -
    from filter_js_total [OF f that] obtain t where "?g x = Inr t" by blast
    then obtain u where u: "some_js (\<lambda>pattern. isFileMatch host x pattern) filesList = Inr u"
      by (auto simp: negate_def split: sum.splits)
    from some_js_decides [OF u] u show ?thesis by (auto simp: negate_def)
  qed
  then have "filter (\<lambda>x. ?g x = Inr True) files
      = filter (\<lambda>x. \<not> (\<exists>pattern\<in>set filesList. isFileMatch host x pattern = Inr True)) files"
    by (intro filter_cong) simp_all
  with filter_js_Inr [OF f] True show ?thesis by simp
next
  case False
  let ?g = "\<lambda>fileName. some_js (\<lambda>pattern. isFileMatch host fileName pattern) filesList"
  from False assms have f: "filter_js ?g files = Inr batch"
    by (simp add: filterFiles_def)
  have "(?g x = Inr True) = (\<exists>pattern\<in>set filesList. isFileMatch host x pattern = Inr True)"
    if "x \<in> set files" for x
  proof -
    from filter_js_total [OF f that] obtain t where u: "?g x = Inr t" by blast
    from some_js_decides [OF u] u show ?thesis by auto
  qed
  then have "filter (\<lambda>x. ?g x = Inr True) files
      = filter (\<lambda>x. \<exists>pattern\<in>set filesList. isFileMatch host x pattern = Inr True) files"
    by (intro filter_cong) simp_all
  with filter_js_Inr [OF f] False show ?thesis by simp
qed

lemma shouldDelete_decision:
  assumes "filesList \<noteq> []"
  shows "shouldDelete minimatch filesType filesList targetPath name =
           (if toLowerCase filesType = ''whitelist''
            then \<not> (\<exists>pattern\<in>set filesList.
                      minimatch name (normalizePattern pattern) \<or>
                      minimatch (relativePath targetPath name) (normalizePattern pattern))
            else (\<exists>pattern\<in>set filesList.
                      minimatch name (normalizePattern pattern) \<or>
                      minimatch (relativePath targetPath name) (normalizePattern pattern)))"
  using assms by (simp add: shouldDelete_def matchAnyPattern_def list_ex_iff Let_def)

lemma toLowerCase_modes:
  "toLowerCase ''whitelist'' = ''whitelist''" "toLowerCase ''blacklist'' \<noteq> ''whitelist''"
  by code_simp+


section \<open>Cleanup without patterns\<close>

lemma delete_items_nothing_flagged:
  assumes "\<And>name. \<not> shouldDelete minimatch filesType filesList targetPath name"
  shows "delete_items fuel b minimatch serverId targetPath filesType filesList items namesToDelete w
           = Some (Inr namesToDelete, w)"
  using assms by (induction items) (simp_all add: Let_def)

lemma shouldDelete_blacklist_empty: "\<not> shouldDelete minimatch ''blacklist'' [] targetPath name"
  by (simp add: shouldDelete_def toLowerCase_modes)

lemma calls_log_failure [simp]: "calls (log_failure e w) = calls w"
  by (simp add: log_failure_def Let_def split: option.splits)

lemma deleteAllFilesInDirectory_blacklist_empty:
  assumes "b (calls w) (ListFiles serverId targetPath) = Resolved st d" "items_of d = Inr items"
  shows "\<exists>w'. deleteAllFilesInDirectory (Suc fuel) b minimatch serverId targetPath ''blacklist'' [] w = Some (Inr (), w') \<and>
              calls w' = calls w @ [ListFiles serverId targetPath]"
  using assms
  by (simp add: Let_def request_def delete_items_nothing_flagged [OF shouldDelete_blacklist_empty])

lemma deleteFilesInDirectory_blacklist_empty:
  assumes "b (calls w) (ListFiles serverId targetPath) = Resolved st d"
    "files_of d = Inr items"
  shows "calls (snd (deleteFilesInDirectory b host serverId targetPath ''blacklist'' [] w)) =
           calls w @ ListFiles serverId targetPath #
                (if filter (\<lambda>item. \<not> item_is_directory item) items = [] then []
                 else [DeleteFiles serverId targetPath
                         (map item_name (filter (\<lambda>item. \<not> item_is_directory item) items))])"
proof (cases "filter (\<lambda>item. \<not> item_is_directory item) items = []")
  case True
  with assms show ?thesis
    by (simp add: deleteFilesInDirectory_def Let_def request_def)
next
  case False
  let ?w2 = "(log (Info (''Deleting files in '' @ targetPath @ '' on server '' @ serverId
                            @ '' (mode: '' @ ''blacklist'' @ '')'')) w)\<lparr>calls := calls w @ [ListFiles serverId targetPath]\<rparr>"
  let ?names = "map item_name (filter (\<lambda>item. \<not> item_is_directory item) items)"
  let ?w4 = "log (Info (''Files to delete ('' @ ''blacklist'' @ '' mode): '' @ join_with '', '' ?names))
              (log (Info (''Found '' @ show_nat (length ?names) @ '' files in directory: '' @ join_with '', '' ?names)) ?w2)"
  have ff: "filterFiles host ?names ''blacklist'' [] = Inr ?names"
    by (simp add: filterFiles_def)
  show ?thesis
  proof (cases "b (calls ?w4) (DeleteFiles serverId targetPath ?names)")
    case (Resolved st' d')
    with False assms ff show ?thesis
      by (simp add: deleteFilesInDirectory_def Let_def request_def)
  next
    case (Rejected e)
    with False assms ff show ?thesis
      by (simp add: deleteFilesInDirectory_def Let_def request_def)
  qed
qed

text \<open>
  Claim C5, as the code has it. With an empty pattern list in blacklist mode the two
  versions differ, and neither deletes every entry of the directory. The second version
  (\<^verbatim>\<open>deleteFilesInDirectory\<close>, and its wrapper under the old name) deletes the entries that
  are not directories, in one call, and makes no delete call when there is none:
  \<^verbatim>\<open>filterFiles\<close> returns all the names it is given, but directories are taken out before.
  The first version (the recursive \<^verbatim>\<open>deleteAllFilesInDirectory\<close>) flags nothing and makes
  no delete call.
\<close>

theorem cleanup_blacklist_without_patterns:
  "b (calls w) (ListFiles serverId targetPath) = Resolved st d \<and> (d = Envelope items \<or> d = Direct items) \<longrightarrow>
     filterFiles host (map item_name (filter (\<lambda>item. \<not> item_is_directory item) items)) ''blacklist'' []
       = Inr (map item_name (filter (\<lambda>item. \<not> item_is_directory item) items)) \<and>
     calls (snd (deleteFilesInDirectory b host serverId targetPath ''blacklist'' [] w)) =
       calls w @ ListFiles serverId targetPath #
         (if filter (\<lambda>item. \<not> item_is_directory item) items = [] then []
          else [DeleteFiles serverId targetPath
                  (map item_name (filter (\<lambda>item. \<not> item_is_directory item) items))]) \<and>
     calls (snd (deleteAllFilesInDirectory_compat b host serverId targetPath w)) =
       calls (snd (deleteFilesInDirectory b host serverId targetPath ''blacklist'' [] w)) \<and>
     (\<exists>w'. deleteAllFilesInDirectory (Suc fuel) b minimatch serverId targetPath ''blacklist'' [] w
              = Some (Inr (), w') \<and>
           calls w' = calls w @ [ListFiles serverId targetPath])"
proof
  assume h: "b (calls w) (ListFiles serverId targetPath) = Resolved st d \<and> (d = Envelope items \<or> d = Direct items)"
  then have r: "b (calls w) (ListFiles serverId targetPath) = Resolved st d" by simp
  from h have i: "items_of d = Inr items" and i': "files_of d = Inr items"
    by (auto simp: items_of_def files_of_def)
  have 1: "filterFiles host (map item_name (filter (\<lambda>item. \<not> item_is_directory item) items)) ''blacklist'' []
       = Inr (map item_name (filter (\<lambda>item. \<not> item_is_directory item) items))"
    by (simp add: filterFiles_def)
  note 2 = deleteFilesInDirectory_blacklist_empty [where b=b and w=w and host=host, OF r i']
  have 3: "calls (snd (deleteAllFilesInDirectory_compat b host serverId targetPath w)) =
       calls (snd (deleteFilesInDirectory b host serverId targetPath ''blacklist'' [] w))"
    by (simp add: deleteAllFilesInDirectory_compat_def)
  note 4 = deleteAllFilesInDirectory_blacklist_empty [where b=b and w=w and fuel=fuel and minimatch=minimatch, OF r i]
  from 1 2 3 4 show "filterFiles host (map item_name (filter (\<lambda>item. \<not> item_is_directory item) items)) ''blacklist'' []
       = Inr (map item_name (filter (\<lambda>item. \<not> item_is_directory item) items)) \<and>
     calls (snd (deleteFilesInDirectory b host serverId targetPath ''blacklist'' [] w)) =
       calls w @ ListFiles serverId targetPath #
         (if filter (\<lambda>item. \<not> item_is_directory item) items = [] then []
          else [DeleteFiles serverId targetPath
                  (map item_name (filter (\<lambda>item. \<not> item_is_directory item) items))]) \<and>
     calls (snd (deleteAllFilesInDirectory_compat b host serverId targetPath w)) =
       calls (snd (deleteFilesInDirectory b host serverId targetPath ''blacklist'' [] w)) \<and>
     (\<exists>w'. deleteAllFilesInDirectory (Suc fuel) b minimatch serverId targetPath ''blacklist'' [] w
              = Some (Inr (), w') \<and>
           calls w' = calls w @ [ListFiles serverId targetPath])"
    by (intro conjI)
qed

theorem cleanup_blacklist_without_patterns_witness:
  "calls (snd (deleteFilesInDirectory (lists [Flat ''a.txt'' False, Nested ''b.txt'' False, Flat ''sub'' True])
                 no_regexp ''srv'' ''/data/'' ''blacklist'' [] fresh))
     = [ListFiles ''srv'' ''/data/'', DeleteFiles ''srv'' ''/data/'' [''a.txt'', ''b.txt'']] \<and>
   (\<exists>w'. deleteAllFilesInDirectory (Suc 0) (lists [Flat ''a.txt'' False, Nested ''b.txt'' False, Flat ''sub'' True])
             literal ''srv'' ''/data/'' ''blacklist'' [] fresh = Some (Inr (), w') \<and>
          calls w' = [ListFiles ''srv'' ''/data/''])"
proof -
  let ?L = "[Flat ''a.txt'' False, Nested ''b.txt'' False, Flat ''sub'' True]"
  have c: "calls fresh = []" by (simp add: fresh_def)
  have r: "lists ?L (calls fresh) (ListFiles ''srv'' ''/data/'') = Resolved 200 (Envelope ?L)
           \<and> (Envelope ?L = Envelope ?L \<or> Envelope ?L = Direct ?L)"
    by (simp add: lists_def)
  note t = cleanup_blacklist_without_patterns [where b="lists ?L" and w=fresh and serverId="''srv''"
      and targetPath="''/data/''" and st=200 and d="Envelope ?L" and items="?L" and host=no_regexp
      and fuel=0 and minimatch=literal, THEN mp, OF r]
  from t have "calls (snd (deleteFilesInDirectory (lists ?L) no_regexp ''srv'' ''/data/'' ''blacklist'' [] fresh)) =
       calls fresh @ ListFiles ''srv'' ''/data/'' #
         (if filter (\<lambda>item. \<not> item_is_directory item) ?L = [] then []
          else [DeleteFiles ''srv'' ''/data/'' (map item_name (filter (\<lambda>item. \<not> item_is_directory item) ?L))])"
    by (elim conjE)
  then have 1: "calls (snd (deleteFilesInDirectory (lists ?L) no_regexp ''srv'' ''/data/'' ''blacklist'' [] fresh))
     = [ListFiles ''srv'' ''/data/'', DeleteFiles ''srv'' ''/data/'' [''a.txt'', ''b.txt'']]"
    by (simp add: c)
  from t have "\<exists>w'. deleteAllFilesInDirectory (Suc 0) (lists ?L) literal ''srv'' ''/data/'' ''blacklist'' [] fresh
                  = Some (Inr (), w') \<and> calls w' = calls fresh @ [ListFiles ''srv'' ''/data/'']"
    by (elim conjE)
  then have 2: "\<exists>w'. deleteAllFilesInDirectory (Suc 0) (lists ?L) literal ''srv'' ''/data/'' ''blacklist'' [] fresh
                  = Some (Inr (), w') \<and> calls w' = [ListFiles ''srv'' ''/data/'']"
    by (simp add: c)
  from 1 2 show ?thesis by (rule conjI)
qed

text \<open>
  The claim as stated fails on a directory that holds a file and a subdirectory: the
  second version deletes the file only, the first version nothing.
\<close>

theorem cleanup_blacklist_without_patterns_counterexample:
  "calls (snd (deleteFilesInDirectory (lists [Flat ''a.txt'' False, Flat ''sub'' True])
                 no_regexp ''srv'' ''/data/'' ''blacklist'' [] fresh))
     = [ListFiles ''srv'' ''/data/'', DeleteFiles ''srv'' ''/data/'' [''a.txt'']] \<and>
   calls_made (deleteAllFilesInDirectory 1 (lists [Flat ''a.txt'' False, Flat ''sub'' True])
                 literal ''srv'' ''/data/'' ''blacklist'' [] fresh)
     = Some [ListFiles ''srv'' ''/data/''] \<and>
   set [''a.txt''] \<noteq> set (map item_name [Flat ''a.txt'' False, Flat ''sub'' True])"
proof (intro conjI)
  show "calls (snd (deleteFilesInDirectory (lists [Flat ''a.txt'' False, Flat ''sub'' True])
                 no_regexp ''srv'' ''/data/'' ''blacklist'' [] fresh))
     = [ListFiles ''srv'' ''/data/'', DeleteFiles ''srv'' ''/data/'' [''a.txt'']]"
    by code_simp
  show "calls_made (deleteAllFilesInDirectory 1 (lists [Flat ''a.txt'' False, Flat ''sub'' True])
                 literal ''srv'' ''/data/'' ''blacklist'' [] fresh)
     = Some [ListFiles ''srv'' ''/data/'']"
    by code_simp
  show "set [''a.txt''] \<noteq> set (map item_name [Flat ''a.txt'' False, Flat ''sub'' True])"
    by simp
qed


section \<open>Patterns\<close>

lemma re_match_AnyStar: "re_match [AnyStar] s = (\<forall>c\<in>set s. \<not> line_terminator c)"
  by (induction s) auto

lemma regexPattern_star: "regexPattern ''*'' = ''.*''"
  by code_simp

lemma isFileMatch_star: "isFileMatch host fileName ''*'' = Inr (\<forall>c\<in>set fileName. \<not> line_terminator c)"
  by (simp add: isFileMatch_def regexPattern_star regexp_test_def re_match_AnyStar)

lemma normalizePattern_append_slash: "normalizePattern (p @ ''/'') = p"
  by (simp add: normalizePattern_def endsWith_def)

lemma normalizePattern_id: "\<not> endsWith p ''/'' \<Longrightarrow> normalizePattern p = p"
  by (simp add: normalizePattern_def)

lemma glob_match_star: "glob_match ''*'' s"
  by (induction s) simp_all

lemma matchAnyPattern_star:
  "matchAnyPattern minimatch name rel [''*''] = (minimatch name ''*'' \<or> minimatch rel ''*'')"
  by (simp add: matchAnyPattern_def normalizePattern_def endsWith_def Let_def)

text \<open>
  Claim C9, as the code has it. In the first version a name matched against \<^verbatim>\<open>*\<close> is
  handed to \<^verbatim>\<open>minimatch\<close> with the pattern unchanged, and the matcher of section 4.1
  accepts every name. In the second version \<^verbatim>\<open>isFileMatch\<close> with pattern \<^verbatim>\<open>*\<close> accepts
  every name that holds no line terminator (the pattern becomes the regular expression
  \<^verbatim>\<open>^.*$\<close>, whose dot does not match one). In the first version a pattern that does not
  itself end in a separator matches the same entries with one separator appended as
  without, whatever \<^verbatim>\<open>minimatch\<close> computes: \<^verbatim>\<open>normalizePattern\<close> strips it. The second
  version strips nothing: a pattern without wildcard that ends in a separator matches the
  name equal to it and no other.
\<close>

theorem pattern_matcher_laws:
  "matchAnyPattern minimatch n n [''*''] = minimatch n ''*'' \<and>
   matchAnyPattern minimatch_spec n n [''*''] \<and>
   ((\<forall>c\<in>set n. \<not> line_terminator c) \<longrightarrow> isFileMatch host n ''*'' = Inr True) \<and>
   (\<not> endsWith p ''/'' \<longrightarrow>
      matchAnyPattern minimatch name rel (ps @ [p @ ''/''] @ qs) = matchAnyPattern minimatch name rel (ps @ [p] @ qs)) \<and>
   (CHR ''*'' \<notin> set p \<and> CHR ''?'' \<notin> set p \<longrightarrow>
      isFileMatch host name (p @ ''/'') = Inr (name = p @ ''/''))"
proof (intro conjI impI)
  show "matchAnyPattern minimatch n n [''*''] = minimatch n ''*''"
    by (simp add: matchAnyPattern_star)
next
  show "matchAnyPattern minimatch_spec n n [''*'']"
    by (simp add: matchAnyPattern_star minimatch_spec_def glob_match_star)
next
  assume "\<forall>c\<in>set n. \<not> line_terminator c"
  then show "isFileMatch host n ''*'' = Inr True" by (simp add: isFileMatch_star)
next
  assume "\<not> endsWith p ''/''"
  then have "normalizePattern (p @ ''/'') = normalizePattern p"
    by (simp add: normalizePattern_append_slash normalizePattern_id)
  then show "matchAnyPattern minimatch name rel (ps @ [p @ ''/''] @ qs) = matchAnyPattern minimatch name rel (ps @ [p] @ qs)"
    by (simp add: matchAnyPattern_def Let_def)
next
  assume "CHR ''*'' \<notin> set p \<and> CHR ''?'' \<notin> set p"
  then show "isFileMatch host name (p @ ''/'') = Inr (name = p @ ''/'')"
    by (simp add: isFileMatch_def)
qed

text \<open>
  The laws on examples: \<^verbatim>\<open>a.txt\<close> against \<^verbatim>\<open>*\<close> in both versions; the entry \<^verbatim>\<open>logs\<close> of
  \<^verbatim>\<open>data\<close> against \<^verbatim>\<open>logs/\<close> and against \<^verbatim>\<open>logs\<close> in the first version; the names \<^verbatim>\<open>logs/\<close>
  and \<^verbatim>\<open>logs\<close> against \<^verbatim>\<open>logs/\<close> in the second version.
\<close>

theorem pattern_matcher_laws_witness:
  "matchAnyPattern minimatch_spec ''a.txt'' ''a.txt'' [''*''] \<and>
   isFileMatch no_regexp ''a.txt'' ''*'' = Inr True \<and>
   matchAnyPattern minimatch_spec ''logs'' ''data/logs'' ([] @ [''logs'' @ ''/''] @ [''*.tmp''])
     = matchAnyPattern minimatch_spec ''logs'' ''data/logs'' ([] @ [''logs''] @ [''*.tmp'']) \<and>
   matchAnyPattern minimatch_spec ''logs'' ''data/logs'' [''logs/'', ''*.tmp''] \<and>
   isFileMatch no_regexp ''logs/'' (''logs'' @ ''/'') = Inr True \<and>
   isFileMatch no_regexp ''logs'' (''logs'' @ ''/'') = Inr False"
proof -
  have 1: "\<forall>c\<in>set ''a.txt''. \<not> line_terminator c" by (simp add: line_terminator_def)
  have 2: "\<not> endsWith ''logs'' ''/''" by (simp add: endsWith_def)
  have 3: "CHR ''*'' \<notin> set ''logs'' \<and> CHR ''?'' \<notin> set ''logs''" by simp
  note t = pattern_matcher_laws [where n = "''a.txt''" and host = no_regexp and p = "''logs''"
             and minimatch = minimatch_spec and rel = "''data/logs''" and ps = "[]" and qs = "[''*.tmp'']"]
  from t [where name = "''logs''"] have a: "matchAnyPattern minimatch_spec ''a.txt'' ''a.txt'' [''*'']"
    by (elim conjE)
  from t [where name = "''logs''"] 1 have b: "isFileMatch no_regexp ''a.txt'' ''*'' = Inr True" by blast
  from t [where name = "''logs''"] 2
  have c: "matchAnyPattern minimatch_spec ''logs'' ''data/logs'' ([] @ [''logs'' @ ''/''] @ [''*.tmp''])
     = matchAnyPattern minimatch_spec ''logs'' ''data/logs'' ([] @ [''logs''] @ [''*.tmp''])" by blast
  have d: "matchAnyPattern minimatch_spec ''logs'' ''data/logs'' [''logs/'', ''*.tmp'']" by code_simp
  from t [where name = "''logs/''"] 3
  have "isFileMatch no_regexp ''logs/'' (''logs'' @ ''/'') = Inr (''logs/'' = ''logs'' @ ''/'')" by blast
  then have e: "isFileMatch no_regexp ''logs/'' (''logs'' @ ''/'') = Inr True" by simp
  from t [where name = "''logs''"] 3
  have "isFileMatch no_regexp ''logs'' (''logs'' @ ''/'') = Inr (''logs'' = ''logs'' @ ''/'')" by blast
  then have f: "isFileMatch no_regexp ''logs'' (''logs'' @ ''/'') = Inr False" by simp
  from a b c d e f show ?thesis by blast
qed

text \<open>
  The claim as stated fails in the second version, which compares a pattern without
  wildcard to the name as it is: \<^verbatim>\<open>logs/\<close> does not match the entry \<^verbatim>\<open>logs\<close> that \<^verbatim>\<open>logs\<close>
  matches. And \<^verbatim>\<open>*\<close> does not match a name with a line feed in it. In the first version
  one separator is stripped and no more: the pattern \<^verbatim>\<open>logs/\<close> with a separator appended
  is \<^verbatim>\<open>logs//\<close>, which is matched as \<^verbatim>\<open>logs/\<close> and does not match the entry \<^verbatim>\<open>logs\<close> that
  \<^verbatim>\<open>logs/\<close> matches.
\<close>

theorem pattern_matcher_laws_counterexample:
  "isFileMatch no_regexp ''logs'' ''logs/'' = Inr False \<and>
   isFileMatch no_regexp ''logs'' ''logs'' = Inr True \<and>
   isFileMatch no_regexp [CHR ''a'', CHR 0x0A, CHR ''b''] ''*'' = Inr False \<and>
   matchAnyPattern minimatch_spec ''logs'' ''logs'' [''logs/'' @ ''/''] = False \<and>
   matchAnyPattern minimatch_spec ''logs'' ''logs'' [''logs/''] = True"
  by code_simp


section \<open>Recursion into directories\<close>

lemma delete_items_extends:
  assumes sub: "\<And>p w r w'. deleteAllFilesInDirectory fuel b mm sid p ft fl w = Some (r, w')
                  \<Longrightarrow> \<exists>rest. calls w' = calls w @ ListFiles sid p # rest"
  shows "delete_items fuel b mm sid tp ft fl items names w = Some (r, w') \<Longrightarrow>
         \<exists>mid. calls w' = calls w @ mid \<and>
           (\<forall>names'. r = Inr names' \<longrightarrow>
              names' = names @ map item_name (filter (\<lambda>item. shouldDelete mm ft fl tp (item_name item)) items) \<and>
              (\<forall>item\<in>set items. item_is_directory item \<and> shouldDelete mm ft fl tp (item_name item) \<longrightarrow>
                 ListFiles sid (tp @ item_name item @ ''/'') \<in> set mid))"
proof (induction items arbitrary: names w)
  case Nil
  then show ?case by auto
next
  case (Cons item items)
  let ?name = "item_name item"
  show ?case
  proof (cases "shouldDelete mm ft fl tp ?name")
    case False
    with Cons.prems have "delete_items fuel b mm sid tp ft fl items names w = Some (r, w')"
      by (simp add: Let_def)
    from Cons.IH [OF this] False show ?thesis by auto
  next
    case flagged: True
    show ?thesis
    proof (cases "item_is_directory item")
      case False
      with flagged Cons.prems have "delete_items fuel b mm sid tp ft fl items (names @ [?name]) w = Some (r, w')"
        by (simp add: Let_def)
      from Cons.IH [OF this] flagged False show ?thesis by auto
    next
      case True
      show ?thesis
      proof (cases "deleteAllFilesInDirectory fuel b mm sid (tp @ ?name @ ''/'') ft fl w")
        case None
        with flagged True Cons.prems show ?thesis by (simp add: Let_def)
      next
        case (Some res)
        obtain r1 w1 where res: "res = (r1, w1)" by (cases res)
        from sub [OF Some [unfolded res]] obtain rest where
          rest: "calls w1 = calls w @ ListFiles sid (tp @ ?name @ ''/'') # rest" by blast
        show ?thesis
        proof (cases r1)
          case (Inl e)
          with Some res flagged True Cons.prems have "r = Inl e" "w' = w1"
            by (simp_all add: Let_def)
          with rest show ?thesis by auto
        next
          case (Inr u)
          with Some res flagged True Cons.prems
          have "delete_items fuel b mm sid tp ft fl items (names @ [?name]) w1 = Some (r, w')"
            by (simp add: Let_def)
          from Cons.IH [OF this] obtain mid where
            mid: "calls w' = calls w1 @ mid"
              "\<forall>names'. r = Inr names' \<longrightarrow>
                names' = (names @ [?name]) @ map item_name (filter (\<lambda>item. shouldDelete mm ft fl tp (item_name item)) items) \<and>
                (\<forall>item\<in>set items. item_is_directory item \<and> shouldDelete mm ft fl tp (item_name item) \<longrightarrow>
                   ListFiles sid (tp @ item_name item @ ''/'') \<in> set mid)"
            by blast
          let ?mid = "ListFiles sid (tp @ ?name @ ''/'') # rest @ mid"
          from mid(1) rest have c: "calls w' = calls w @ ?mid" by simp
          from mid(2) flagged have
            "\<forall>names'. r = Inr names' \<longrightarrow>
              names' = names @ map item_name (filter (\<lambda>item. shouldDelete mm ft fl tp (item_name item)) (item # items)) \<and>
              (\<forall>i\<in>set (item # items). item_is_directory i \<and> shouldDelete mm ft fl tp (item_name i) \<longrightarrow>
                 ListFiles sid (tp @ item_name i @ ''/'') \<in> set ?mid)"
            by auto
          with c show ?thesis by blast
        qed
      qed
    qed
  qed
qed

lemma deleteAllFilesInDirectory_Suc_cases:
  assumes "deleteAllFilesInDirectory (Suc n) b mm sid tp ft fl w = Some (r, w')"
  shows "\<exists>w1. calls w1 = calls w @ [ListFiles sid tp] \<and>
           ((\<exists>e. r = Inl e \<and> calls w' = calls w1) \<or>
            (\<exists>st d items r2 w2.
                b (calls w) (ListFiles sid tp) = Resolved st d \<and>
                items_of d = Inr items \<and>
                delete_items n b mm sid tp ft fl items [] w1 = Some (r2, w2) \<and>
                ((\<exists>e. r2 = Inl e \<and> r = Inl e \<and> calls w' = calls w2) \<or>
                 (\<exists>names. r2 = Inr names \<and> names = [] \<and> calls w' = calls w2) \<or>
                 (\<exists>names. r2 = Inr names \<and> names \<noteq> [] \<and>
                           calls w' = calls w2 @ [DeleteFiles sid tp names]))))"
proof -
  let ?w0 = "log (Info (''Deleting files in '' @ tp @ '' on server '' @ sid @ '' with '' @ ft @ '' mode'')) w"
  let ?w1 = "?w0\<lparr>calls := calls ?w0 @ [ListFiles sid tp]\<rparr>"
  have c1: "calls ?w1 = calls w @ [ListFiles sid tp]" by simp
  show ?thesis
  proof (cases "b (calls w) (ListFiles sid tp)")
    case (Rejected e)
    with assms have "r = Inl e" "w' = log_failure e ?w1"
      by (simp_all add: Let_def request_def)
    then have "r = Inl e" "calls w' = calls ?w1" by simp_all
    with c1 show ?thesis by blast
  next
    case (Resolved st d)
    show ?thesis
    proof (cases "items_of d")
      case (Inl e)
      with Resolved assms have "r = Inl e" "w' = log_failure e ?w1"
        by (simp_all add: Let_def request_def)
      then have "r = Inl e" "calls w' = calls ?w1" by simp_all
      with c1 show ?thesis by blast
    next
      case (Inr items)
      show ?thesis
      proof (cases "delete_items n b mm sid tp ft fl items [] ?w1")
        case None
        with Inr Resolved assms show ?thesis by (simp add: Let_def request_def)
      next
        case (Some res)
        obtain r2 w2 where res: "res = (r2, w2)" by (cases res)
        note di = Some [unfolded res]
        show ?thesis
        proof (cases r2)
          case (Inl e)
          with di Inr Resolved assms have "r = Inl e" "w' = log_failure e w2"
            by (simp_all add: Let_def request_def)
          then have "r = Inl e" "calls w' = calls w2" by simp_all
          with c1 Resolved Inr di Inl show ?thesis by blast
        next
          case names: (Inr names)
          show ?thesis
          proof (cases "names = []")
            case True
            with names di Inr Resolved assms have "calls w' = calls w2"
              by (auto simp: Let_def request_def)
            with c1 Resolved Inr di names True show ?thesis by blast
          next
            case False
            with names di Inr Resolved assms have "calls w' = calls w2 @ [DeleteFiles sid tp names]"
              by (auto simp: Let_def request_def split: response.splits)
            with c1 Resolved Inr di names False show ?thesis by blast
          qed
        qed
      qed
    qed
  qed
qed


lemma deleteAllFilesInDirectory_lists_first:
  "deleteAllFilesInDirectory fuel b mm sid tp ft fl w = Some (r, w')
     \<Longrightarrow> \<exists>rest. calls w' = calls w @ ListFiles sid tp # rest"
proof (induction fuel arbitrary: tp w r w')
  case 0
  then show ?case by simp
next
  case (Suc n)
  from deleteAllFilesInDirectory_Suc_cases [OF Suc.prems] obtain w1 where
    c1: "calls w1 = calls w @ [ListFiles sid tp]" and
    d: "(\<exists>e. r = Inl e \<and> calls w' = calls w1) \<or>
        (\<exists>st d items r2 w2.
            b (calls w) (ListFiles sid tp) = Resolved st d \<and>
            items_of d = Inr items \<and>
            delete_items n b mm sid tp ft fl items [] w1 = Some (r2, w2) \<and>
            ((\<exists>e. r2 = Inl e \<and> r = Inl e \<and> calls w' = calls w2) \<or>
             (\<exists>names. r2 = Inr names \<and> names = [] \<and> calls w' = calls w2) \<or>
             (\<exists>names. r2 = Inr names \<and> names \<noteq> [] \<and> calls w' = calls w2 @ [DeleteFiles sid tp names])))"
    by blast
  from d show ?case
  proof
    assume "\<exists>e. r = Inl e \<and> calls w' = calls w1"
    with c1 show ?thesis by auto
  next
    assume "\<exists>st d items r2 w2.
            b (calls w) (ListFiles sid tp) = Resolved st d \<and>
            items_of d = Inr items \<and>
            delete_items n b mm sid tp ft fl items [] w1 = Some (r2, w2) \<and>
            ((\<exists>e. r2 = Inl e \<and> r = Inl e \<and> calls w' = calls w2) \<or>
             (\<exists>names. r2 = Inr names \<and> names = [] \<and> calls w' = calls w2) \<or>
             (\<exists>names. r2 = Inr names \<and> names \<noteq> [] \<and> calls w' = calls w2 @ [DeleteFiles sid tp names]))"
    then obtain items r2 w2 where
      di: "delete_items n b mm sid tp ft fl items [] w1 = Some (r2, w2)" and
      e: "calls w' = calls w2 \<or> (\<exists>names. calls w' = calls w2 @ [DeleteFiles sid tp names])"
      by blast
    have "\<exists>mid. calls w2 = calls w1 @ mid \<and>
           (\<forall>names'. r2 = Inr names' \<longrightarrow>
              names' = [] @ map item_name (filter (\<lambda>item. shouldDelete mm ft fl tp (item_name item)) items) \<and>
              (\<forall>item\<in>set items. item_is_directory item \<and> shouldDelete mm ft fl tp (item_name item) \<longrightarrow>
                 ListFiles sid (tp @ item_name item @ ''/'') \<in> set mid))"
    proof (rule delete_items_extends [where fuel=n and b=b and mm=mm and sid=sid and ft=ft and fl=fl])
      show "delete_items n b mm sid tp ft fl items [] w1 = Some (r2, w2)" by (rule di)
    next
      fix p w r w'
      assume "deleteAllFilesInDirectory n b mm sid p ft fl w = Some (r, w')"
      then show "\<exists>rest. calls w' = calls w @ ListFiles sid p # rest" by (rule Suc.IH)
    qed
    then obtain mid where "calls w2 = calls w1 @ mid" by blast
    with c1 e show ?thesis by auto
  qed
qed






section \<open>What the cleanup deletes\<close>

lemma filterFiles_Nil: "filterFiles host [] filesType filesList = Inr batch \<Longrightarrow> batch = []"
  by (auto simp: filterFiles_def split: if_splits)

lemma filter_js_negate_total:
  "filter_js (\<lambda>x. negate (g x)) xs = Inr ys \<Longrightarrow> \<exists>zs. filter_js g xs = Inr zs"
proof (induction xs arbitrary: ys)
  case Nil
  then show ?case by simp
next
  case (Cons x xs)
  from Cons.prems obtain t ys' where t: "negate (g x) = Inr t" "filter_js (\<lambda>x. negate (g x)) xs = Inr ys'"
    by (auto split: sum.splits)
  from t(1) obtain u where u: "g x = Inr u" by (cases "g x") (auto simp: negate_def)
  from Cons.IH [OF t(2)] obtain zs where "filter_js g xs = Inr zs" by blast
  with u show ?case by simp
qed

lemma deleteFilesInDirectory_calls:
  assumes l: "b (calls w) (ListFiles sid tp) = Resolved st d" and f: "files_of d = Inr items"
    and ff: "filterFiles host (map item_name (filter (\<lambda>item. \<not> item_is_directory item) items)) ft fl = Inr batch"
  shows "calls (snd (deleteFilesInDirectory b host sid tp ft fl w)) =
           calls w @ ListFiles sid tp # (if batch = [] then [] else [DeleteFiles sid tp batch])"
proof (cases "filter (\<lambda>item. \<not> item_is_directory item) items = []")
  case True
  with ff have "batch = []" by (simp add: filterFiles_Nil)
  with True l f show ?thesis
    by (cases "fl = []") (simp_all add: deleteFilesInDirectory_def Let_def request_def)
next
  case False
  show ?thesis
  proof (cases "batch = []")
    case True
    with False l f ff show ?thesis
      by (cases "fl = []") (simp_all add: deleteFilesInDirectory_def Let_def request_def)
  next
    case ne: False
    show ?thesis
    proof (cases "ft = ''whitelist'' \<and> 0 < length fl")
      case wl: True
      with ff have "filter_js (\<lambda>fileName. negate (some_js (\<lambda>pattern. isFileMatch host fileName pattern) fl))
                      (map item_name (filter (\<lambda>item. \<not> item_is_directory item) items)) = Inr batch"
        by (simp add: filterFiles_def)
      from filter_js_negate_total [OF this] obtain keep where
        k: "filter_js (\<lambda>fileName. some_js (\<lambda>pattern. isFileMatch host fileName pattern) fl)
                      (map item_name (filter (\<lambda>item. \<not> item_is_directory item) items)) = Inr keep"
        by blast
      show ?thesis
      proof (cases "b (calls w @ [ListFiles sid tp]) (DeleteFiles sid tp batch)")
        case (Resolved st' d')
        with False ne wl l f ff k show ?thesis
          by (cases "fl = []") (simp_all add: deleteFilesInDirectory_def Let_def request_def)
      next
        case (Rejected e)
        with False ne wl l f ff k show ?thesis
          by (cases "fl = []") (simp_all add: deleteFilesInDirectory_def Let_def request_def)
      qed
    next
      case nwl: False
      show ?thesis
      proof (cases "b (calls w @ [ListFiles sid tp]) (DeleteFiles sid tp batch)")
        case (Resolved st' d')
        with False ne nwl l f ff show ?thesis
          by (cases "fl = []") (simp_all add: deleteFilesInDirectory_def Let_def request_def)
      next
        case (Rejected e)
        with False ne nwl l f ff show ?thesis
          by (cases "fl = []") (simp_all add: deleteFilesInDirectory_def Let_def request_def)
      qed
    qed
  qed
qed

lemma delete_items_batch:
  assumes "delete_items fuel b mm sid tp ft fl items names w = Some (Inr names', w')"
  shows "names' = names @ map item_name (filter (\<lambda>item. shouldDelete mm ft fl tp (item_name item)) items)"
proof -
  have "\<exists>mid. calls w' = calls w @ mid \<and>
           (\<forall>n'. (Inr names' :: error + string list) = Inr n' \<longrightarrow>
              n' = names @ map item_name (filter (\<lambda>item. shouldDelete mm ft fl tp (item_name item)) items) \<and>
              (\<forall>item\<in>set items. item_is_directory item \<and> shouldDelete mm ft fl tp (item_name item) \<longrightarrow>
                 ListFiles sid (tp @ item_name item @ ''/'') \<in> set mid))"
  proof (rule delete_items_extends [where fuel=fuel and b=b and mm=mm and sid=sid and ft=ft and fl=fl])
    show "delete_items fuel b mm sid tp ft fl items names w = Some (Inr names', w')" by (rule assms)
  next
    fix p w r w'
    assume "deleteAllFilesInDirectory fuel b mm sid p ft fl w = Some (r, w')"
    then show "\<exists>rest. calls w' = calls w @ ListFiles sid p # rest"
      by (rule deleteAllFilesInDirectory_lists_first)
  qed
  then show ?thesis by blast
qed

text \<open>
  Claim C6, as the code has it. With a pattern list that is not empty, the first version
  flags an entry of the listing, file or directory, for deletion in blacklist mode exactly
  when some pattern, normalised, matches its name or its relative path, and in whitelist
  mode exactly when none does; the batch is the names of the flagged entries. The second
  version applies the rule to the entries that are not directories, and to the name alone,
  through \<^verbatim>\<open>isFileMatch\<close>: the batch that \<^verbatim>\<open>filterFiles\<close> returns is the names some pattern
  matches (blacklist), or the names no pattern matches (whitelist), and
  \<^verbatim>\<open>deleteFilesInDirectory\<close> sends one delete call for that batch, taken from the names of
  the non-directory entries, or none when the batch is empty.
\<close>

theorem cleanup_decision:
  "filesList \<noteq> [] \<longrightarrow>
     shouldDelete minimatch ''blacklist'' filesList targetPath name =
       (\<exists>pattern\<in>set filesList.
           minimatch name (normalizePattern pattern) \<or>
           minimatch (relativePath targetPath name) (normalizePattern pattern)) \<and>
     shouldDelete minimatch ''whitelist'' filesList targetPath name =
       (\<not> (\<exists>pattern\<in>set filesList.
           minimatch name (normalizePattern pattern) \<or>
           minimatch (relativePath targetPath name) (normalizePattern pattern))) \<and>
     (\<forall>namesToDelete w'.
        delete_items fuel b minimatch serverId targetPath filesType filesList items [] w
          = Some (Inr namesToDelete, w') \<longrightarrow>
        namesToDelete = map item_name
          (filter (\<lambda>item. shouldDelete minimatch filesType filesList targetPath (item_name item)) items)) \<and>
     (\<forall>batch. filterFiles host files ''blacklist'' filesList = Inr batch \<longrightarrow>
        batch = filter (\<lambda>fileName. \<exists>pattern\<in>set filesList. isFileMatch host fileName pattern = Inr True) files) \<and>
     (\<forall>batch. filterFiles host files ''whitelist'' filesList = Inr batch \<longrightarrow>
        batch = filter (\<lambda>fileName. \<not> (\<exists>pattern\<in>set filesList. isFileMatch host fileName pattern = Inr True)) files) \<and>
     (\<forall>st d listing batch.
        b (calls w) (ListFiles serverId targetPath) = Resolved st d \<and>
        (d = Envelope listing \<or> d = Direct listing) \<and>
        filterFiles host (map item_name (filter (\<lambda>item. \<not> item_is_directory item) listing))
          filesType filesList = Inr batch \<longrightarrow>
        calls (snd (deleteFilesInDirectory b host serverId targetPath filesType filesList w)) =
          calls w @ ListFiles serverId targetPath #
            (if batch = [] then [] else [DeleteFiles serverId targetPath batch]))"
proof
  assume ne: "filesList \<noteq> []"
  have a: "shouldDelete minimatch ''blacklist'' filesList targetPath name =
       (\<exists>pattern\<in>set filesList.
           minimatch name (normalizePattern pattern) \<or>
           minimatch (relativePath targetPath name) (normalizePattern pattern))"
    by (simp only: shouldDelete_decision [OF ne] toLowerCase_modes if_False)
  have b: "shouldDelete minimatch ''whitelist'' filesList targetPath name =
       (\<not> (\<exists>pattern\<in>set filesList.
           minimatch name (normalizePattern pattern) \<or>
           minimatch (relativePath targetPath name) (normalizePattern pattern)))"
    by (simp only: shouldDelete_decision [OF ne] toLowerCase_modes if_True simp_thms)
  have c: "\<forall>namesToDelete w'.
        delete_items fuel b minimatch serverId targetPath filesType filesList items [] w
          = Some (Inr namesToDelete, w') \<longrightarrow>
        namesToDelete = map item_name
          (filter (\<lambda>item. shouldDelete minimatch filesType filesList targetPath (item_name item)) items)"
  proof (intro allI impI)
    fix namesToDelete w'
    assume "delete_items fuel b minimatch serverId targetPath filesType filesList items [] w
          = Some (Inr namesToDelete, w')"
    from delete_items_batch [OF this]
    show "namesToDelete = map item_name
          (filter (\<lambda>item. shouldDelete minimatch filesType filesList targetPath (item_name item)) items)"
      by simp
  qed
  have d: "\<forall>batch. filterFiles host files ''blacklist'' filesList = Inr batch \<longrightarrow>
        batch = filter (\<lambda>fileName. \<exists>pattern\<in>set filesList. isFileMatch host fileName pattern = Inr True) files"
  proof (intro allI impI)
    fix batch assume "filterFiles host files ''blacklist'' filesList = Inr batch"
    from filterFiles_decision [OF ne this]
    show "batch = filter (\<lambda>fileName. \<exists>pattern\<in>set filesList. isFileMatch host fileName pattern = Inr True) files"
      by simp
  qed
  have e: "\<forall>batch. filterFiles host files ''whitelist'' filesList = Inr batch \<longrightarrow>
        batch = filter (\<lambda>fileName. \<not> (\<exists>pattern\<in>set filesList. isFileMatch host fileName pattern = Inr True)) files"
  proof (intro allI impI)
    fix batch assume "filterFiles host files ''whitelist'' filesList = Inr batch"
    from filterFiles_decision [OF ne this]
    show "batch = filter (\<lambda>fileName. \<not> (\<exists>pattern\<in>set filesList. isFileMatch host fileName pattern = Inr True)) files"
      by simp
  qed
  have f: "\<forall>st d listing batch.
        b (calls w) (ListFiles serverId targetPath) = Resolved st d \<and>
        (d = Envelope listing \<or> d = Direct listing) \<and>
        filterFiles host (map item_name (filter (\<lambda>item. \<not> item_is_directory item) listing))
          filesType filesList = Inr batch \<longrightarrow>
        calls (snd (deleteFilesInDirectory b host serverId targetPath filesType filesList w)) =
          calls w @ ListFiles serverId targetPath #
            (if batch = [] then [] else [DeleteFiles serverId targetPath batch])"
  proof (intro allI impI, elim conjE)
    fix st d listing batch
    assume l: "b (calls w) (ListFiles serverId targetPath) = Resolved st d"
      and d: "d = Envelope listing \<or> d = Direct listing"
      and ff: "filterFiles host (map item_name (filter (\<lambda>item. \<not> item_is_directory item) listing))
          filesType filesList = Inr batch"
    from d have "files_of d = Inr listing" by (auto simp: files_of_def)
    from deleteFilesInDirectory_calls [where b = b and w = w, OF l this ff]
    show "calls (snd (deleteFilesInDirectory b host serverId targetPath filesType filesList w)) =
          calls w @ ListFiles serverId targetPath #
            (if batch = [] then [] else [DeleteFiles serverId targetPath batch])" .
  qed
  from a b c d e f show "shouldDelete minimatch ''blacklist'' filesList targetPath name =
       (\<exists>pattern\<in>set filesList.
           minimatch name (normalizePattern pattern) \<or>
           minimatch (relativePath targetPath name) (normalizePattern pattern)) \<and>
     shouldDelete minimatch ''whitelist'' filesList targetPath name =
       (\<not> (\<exists>pattern\<in>set filesList.
           minimatch name (normalizePattern pattern) \<or>
           minimatch (relativePath targetPath name) (normalizePattern pattern))) \<and>
     (\<forall>namesToDelete w'.
        delete_items fuel b minimatch serverId targetPath filesType filesList items [] w
          = Some (Inr namesToDelete, w') \<longrightarrow>
        namesToDelete = map item_name
          (filter (\<lambda>item. shouldDelete minimatch filesType filesList targetPath (item_name item)) items)) \<and>
     (\<forall>batch. filterFiles host files ''blacklist'' filesList = Inr batch \<longrightarrow>
        batch = filter (\<lambda>fileName. \<exists>pattern\<in>set filesList. isFileMatch host fileName pattern = Inr True) files) \<and>
     (\<forall>batch. filterFiles host files ''whitelist'' filesList = Inr batch \<longrightarrow>
        batch = filter (\<lambda>fileName. \<not> (\<exists>pattern\<in>set filesList. isFileMatch host fileName pattern = Inr True)) files) \<and>
     (\<forall>st d listing batch.
        b (calls w) (ListFiles serverId targetPath) = Resolved st d \<and>
        (d = Envelope listing \<or> d = Direct listing) \<and>
        filterFiles host (map item_name (filter (\<lambda>item. \<not> item_is_directory item) listing))
          filesType filesList = Inr batch \<longrightarrow>
        calls (snd (deleteFilesInDirectory b host serverId targetPath filesType filesList w)) =
          calls w @ ListFiles serverId targetPath #
            (if batch = [] then [] else [DeleteFiles serverId targetPath batch]))"
    by (intro conjI)
qed


text \<open>
  Examples. Whitelist, patterns \<^verbatim>\<open>keep.txt\<close>, listing \<^verbatim>\<open>keep.txt\<close> and \<^verbatim>\<open>drop.txt\<close>: both
  versions send one delete call, for \<^verbatim>\<open>drop.txt\<close> alone. In the first version, with the
  matcher of section 4.1, the pattern \<^verbatim>\<open>home/container/keep.txt\<close> does not match the name
  \<^verbatim>\<open>keep.txt\<close> but matches its relative path in \<^verbatim>\<open>/home/container/\<close>, and that decides.
\<close>

theorem cleanup_decision_witness:
  "\<not> minimatch_spec ''keep.txt'' (normalizePattern ''home/container/keep.txt'') \<and>
   minimatch_spec (relativePath ''/home/container/'' ''keep.txt'') (normalizePattern ''home/container/keep.txt'') \<and>
   shouldDelete minimatch_spec ''blacklist'' [''home/container/keep.txt''] ''/home/container/'' ''keep.txt'' \<and>
   \<not> shouldDelete minimatch_spec ''whitelist'' [''home/container/keep.txt''] ''/home/container/'' ''keep.txt'' \<and>
   delete_items 0 (lists [Flat ''keep.txt'' False, Flat ''drop.txt'' False]) minimatch_spec
       ''srv'' ''/home/container/'' ''whitelist'' [''keep.txt'']
       [Flat ''keep.txt'' False, Flat ''drop.txt'' False] [] fresh = Some (Inr [''drop.txt''], fresh) \<and>
   [''drop.txt''] = map item_name
       (filter (\<lambda>item. shouldDelete minimatch_spec ''whitelist'' [''keep.txt''] ''/home/container/'' (item_name item))
          [Flat ''keep.txt'' False, Flat ''drop.txt'' False]) \<and>
   calls_made (deleteAllFilesInDirectory 1 (lists [Flat ''keep.txt'' False, Flat ''drop.txt'' False]) minimatch_spec
                 ''srv'' ''/home/container/'' ''whitelist'' [''keep.txt''] fresh)
     = Some [ListFiles ''srv'' ''/home/container/'', DeleteFiles ''srv'' ''/home/container/'' [''drop.txt'']] \<and>
   filterFiles no_regexp [''keep.txt'', ''drop.txt''] ''whitelist'' [''keep.txt''] = Inr [''drop.txt''] \<and>
   calls (snd (deleteFilesInDirectory (lists [Flat ''keep.txt'' False, Flat ''drop.txt'' False]) no_regexp
                 ''srv'' ''/home/container/'' ''whitelist'' [''keep.txt''] fresh))
     = [ListFiles ''srv'' ''/home/container/'', DeleteFiles ''srv'' ''/home/container/'' [''drop.txt'']]"
proof -
  let ?L = "[Flat ''keep.txt'' False, Flat ''drop.txt'' False]"
  have ne1: "[''home/container/keep.txt''] \<noteq> ([] :: string list)" by simp
  have ne2: "[''keep.txt''] \<noteq> ([] :: string list)" by simp
  note t1 = cleanup_decision [where filesList = "[''home/container/keep.txt'']" and minimatch = minimatch_spec
              and targetPath = "''/home/container/''" and name = "''keep.txt''", THEN mp, OF ne1]
  note t2 = cleanup_decision [where filesList = "[''keep.txt'']" and minimatch = minimatch_spec
              and targetPath = "''/home/container/''" and fuel = 0 and b = "lists ?L" and serverId = "''srv''"
              and filesType = "''whitelist''" and items = ?L and w = fresh and host = no_regexp
              and name = "''keep.txt''" and files = "[''keep.txt'', ''drop.txt'']", THEN mp, OF ne2]
  have 1: "\<not> minimatch_spec ''keep.txt'' (normalizePattern ''home/container/keep.txt'')"
    by code_simp
  have 2: "minimatch_spec (relativePath ''/home/container/'' ''keep.txt'') (normalizePattern ''home/container/keep.txt'')"
    by code_simp
  from t1 [THEN conjunct1] 2 have 3: "shouldDelete minimatch_spec ''blacklist'' [''home/container/keep.txt''] ''/home/container/'' ''keep.txt''"
    by (simp only: list.set bex_simps singleton_iff simp_thms)
  from t1 [THEN conjunct2, THEN conjunct1] 2 have 4: "\<not> shouldDelete minimatch_spec ''whitelist'' [''home/container/keep.txt''] ''/home/container/'' ''keep.txt''"
    by (simp only: list.set bex_simps singleton_iff simp_thms)
  have 5: "delete_items 0 (lists ?L) minimatch_spec ''srv'' ''/home/container/'' ''whitelist'' [''keep.txt'']
       ?L [] fresh = Some (Inr [''drop.txt''], fresh)"
    by code_simp
  from t2 have "\<forall>namesToDelete w'.
        delete_items 0 (lists ?L) minimatch_spec ''srv'' ''/home/container/'' ''whitelist'' [''keep.txt''] ?L [] fresh
          = Some (Inr namesToDelete, w') \<longrightarrow>
        namesToDelete = map item_name
          (filter (\<lambda>item. shouldDelete minimatch_spec ''whitelist'' [''keep.txt''] ''/home/container/'' (item_name item)) ?L)"
    by (elim conjE)
  with 5 have 6: "[''drop.txt''] = map item_name
       (filter (\<lambda>item. shouldDelete minimatch_spec ''whitelist'' [''keep.txt''] ''/home/container/'' (item_name item)) ?L)"
    by blast
  have 7: "calls_made (deleteAllFilesInDirectory 1 (lists ?L) minimatch_spec
                 ''srv'' ''/home/container/'' ''whitelist'' [''keep.txt''] fresh)
     = Some [ListFiles ''srv'' ''/home/container/'', DeleteFiles ''srv'' ''/home/container/'' [''drop.txt'']]"
    by code_simp
  have 8: "filterFiles no_regexp [''keep.txt'', ''drop.txt''] ''whitelist'' [''keep.txt''] = Inr [''drop.txt'']"
    by code_simp
  have l: "lists ?L (calls fresh) (ListFiles ''srv'' ''/home/container/'') = Resolved 200 (Envelope ?L)"
    by (simp add: lists_def)
  have ff: "filterFiles no_regexp (map item_name (filter (\<lambda>item. \<not> item_is_directory item) ?L))
              ''whitelist'' [''keep.txt''] = Inr [''drop.txt'']"
    by code_simp
  from t2 have "\<forall>st d listing batch.
        lists ?L (calls fresh) (ListFiles ''srv'' ''/home/container/'') = Resolved st d \<and>
        (d = Envelope listing \<or> d = Direct listing) \<and>
        filterFiles no_regexp (map item_name (filter (\<lambda>item. \<not> item_is_directory item) listing))
          ''whitelist'' [''keep.txt''] = Inr batch \<longrightarrow>
        calls (snd (deleteFilesInDirectory (lists ?L) no_regexp ''srv'' ''/home/container/'' ''whitelist'' [''keep.txt''] fresh)) =
          calls fresh @ ListFiles ''srv'' ''/home/container/'' #
            (if batch = [] then [] else [DeleteFiles ''srv'' ''/home/container/'' batch])"
    by (elim conjE)
  from this [rule_format, of 200 "Envelope ?L" ?L "[''drop.txt'']"] l ff
  have "calls (snd (deleteFilesInDirectory (lists ?L) no_regexp ''srv'' ''/home/container/'' ''whitelist'' [''keep.txt''] fresh)) =
          calls fresh @ ListFiles ''srv'' ''/home/container/'' #
            (if [''drop.txt''] = ([] :: string list) then [] else [DeleteFiles ''srv'' ''/home/container/'' [''drop.txt'']])"
    by blast
  then have 9: "calls (snd (deleteFilesInDirectory (lists ?L) no_regexp
                 ''srv'' ''/home/container/'' ''whitelist'' [''keep.txt''] fresh))
     = [ListFiles ''srv'' ''/home/container/'', DeleteFiles ''srv'' ''/home/container/'' [''drop.txt'']]"
    by (simp add: fresh_def)
  from 1 2 3 4 5 6 7 8 9 show ?thesis by blast
qed

text \<open>
  The claim as stated fails in the second version. A directory is never in the batch: in
  blacklist mode the directory \<^verbatim>\<open>cache\<close> is matched by the pattern \<^verbatim>\<open>cache\<close> and in whitelist
  mode the directory \<^verbatim>\<open>sub\<close> is matched by no pattern, and neither run makes a delete call.
  And the relative path is not looked at: the pattern \<^verbatim>\<open>data/a.txt\<close> is the relative path of
  the file \<^verbatim>\<open>a.txt\<close> in \<^verbatim>\<open>/data/\<close>, and the second version makes no delete call where the
  first deletes the file.
\<close>

theorem cleanup_decision_counterexample:
  "isFileMatch no_regexp ''cache'' ''cache'' = Inr True \<and>
   calls (snd (deleteFilesInDirectory (lists [Flat ''cache'' True, Flat ''a.txt'' False]) no_regexp
                 ''srv'' ''/data/'' ''blacklist'' [''cache''] fresh))
     = [ListFiles ''srv'' ''/data/''] \<and>
   isFileMatch no_regexp ''sub'' ''keep.txt'' = Inr False \<and>
   calls (snd (deleteFilesInDirectory (lists [Flat ''keep.txt'' False, Flat ''sub'' True]) no_regexp
                 ''srv'' ''/data/'' ''whitelist'' [''keep.txt''] fresh))
     = [ListFiles ''srv'' ''/data/''] \<and>
   relativePath ''/data/'' ''a.txt'' = ''data/a.txt'' \<and>
   calls (snd (deleteFilesInDirectory (lists [Flat ''a.txt'' False]) no_regexp
                 ''srv'' ''/data/'' ''blacklist'' [''data/a.txt''] fresh))
     = [ListFiles ''srv'' ''/data/''] \<and>
   calls_made (deleteAllFilesInDirectory 1 (lists [Flat ''a.txt'' False]) minimatch_spec
                 ''srv'' ''/data/'' ''blacklist'' [''data/a.txt''] fresh)
     = Some [ListFiles ''srv'' ''/data/'', DeleteFiles ''srv'' ''/data/'' [''a.txt'']]"
  by code_simp


end
